theory Spec2Isabelle
  imports Complex_Main
begin

section \<open>Go integers\<close>

text \<open>
  Go's \<open>int\<close> is taken as a 64-bit two's complement integer. A value of that type is an
  \<open>int\<close> of the range \<open>-2^63 ..< 2^63\<close>, and every addition, subtraction and
  multiplication of the source goes through \<open>wrap64\<close>, which writes the wrap-around out.
\<close>

definition wrap64 :: "int \<Rightarrow> int" where
  "wrap64 v = (v + 2 ^ 63) mod 2 ^ 64 - 2 ^ 63"

definition add64 :: "int \<Rightarrow> int \<Rightarrow> int" where
  "add64 a b = wrap64 (a + b)"

definition sub64 :: "int \<Rightarrow> int \<Rightarrow> int" where
  "sub64 a b = wrap64 (a - b)"

definition mul64 :: "int \<Rightarrow> int \<Rightarrow> int" where
  "mul64 a b = wrap64 (a * b)"

definition is_int64 :: "int \<Rightarrow> bool" where
  "is_int64 v = (- (2 ^ 63) \<le> v \<and> v < 2 ^ 63)"

text \<open>Go's \<open>%\<close> truncates towards zero: the remainder has the sign of the dividend.\<close>

definition go_rem :: "int \<Rightarrow> int \<Rightarrow> int" where
  "go_rem a b = sgn a * (\<bar>a\<bar> mod \<bar>b\<bar>)"

text \<open>The conversion \<open>uint16(v)\<close> keeps the low 16 bits.\<close>

definition uint16 :: "int \<Rightarrow> nat" where
  "uint16 v = nat (v mod 65536)"

text \<open>What stops a Go function short of its return: a run-time panic.\<close>

datatype panic = IndexOutOfRange | DivideByZero | NegativeLen

text \<open>
  The \<open>error\<close> values that reach \<open>main\<close>: the sentinel of the demos, and whatever
  else the engine's \<open>RunGame\<close> reports.
\<close>

datatype err = ErrCleanExit | EngineError string

section \<open>The host engine, as the demos see it\<close>

datatype key =
  KeyUp | KeyDown | KeyLeft | KeyRight | KeyW | KeyA | KeyS | KeyD
  | KeyQ | KeyE | KeySpace | KeyF | KeyEscape

datatype button = MouseButtonLeft | MouseButtonRight

text \<open>
  What one call of \<open>Update\<close> can read from the engine: \<open>ebiten.IsKeyPressed\<close>,
  \<open>inpututil.IsKeyJustPressed\<close>, \<open>inpututil.IsMouseButtonJustPressed\<close> and
  \<open>ebiten.CursorPosition\<close>.
\<close>

record input =
  IsKeyPressed :: "key \<Rightarrow> bool"
  IsKeyJustPressed :: "key \<Rightarrow> bool"
  IsMouseButtonJustPressed :: "button \<Rightarrow> bool"
  CursorPosition :: "int \<times> int"

text \<open>
  The raw state of the devices during one frame, and the engine's edge detection: a key
  or button is just pressed in a frame when it is down in that frame and was up in the
  frame before. The engine is not part of the repository; this is its documented
  behaviour, used where a property speaks of raw key states over several frames.
\<close>

record frame =
  keysDown :: "key \<Rightarrow> bool"
  buttonsDown :: "button \<Rightarrow> bool"
  cursor :: "int \<times> int"

definition engine_input :: "frame \<Rightarrow> frame \<Rightarrow> input" where
  "engine_input prev cur =
     \<lparr> IsKeyPressed = keysDown cur,
       IsKeyJustPressed = (\<lambda>k. keysDown cur k \<and> \<not> keysDown prev k),
       IsMouseButtonJustPressed = (\<lambda>b. buttonsDown cur b \<and> \<not> buttonsDown prev b),
       CursorPosition = cursor cur \<rparr>"

text \<open>Two frames for concrete runs: nothing is down, and one key is down.\<close>

definition idle :: frame where
  "idle = \<lparr> keysDown = (\<lambda>k. False), buttonsDown = (\<lambda>b. False), cursor = (0, 0) \<rparr>"

definition pressing :: "key \<Rightarrow> frame" where
  "pressing k0 = \<lparr> keysDown = (\<lambda>k. k = k0), buttonsDown = (\<lambda>b. False), cursor = (0, 0) \<rparr>"

text \<open>
  \<open>ebiten.RunGame\<close>: one \<open>Update\<close> per frame, until \<open>Update\<close> returns an error,
  which \<open>RunGame\<close> returns. A panic of \<open>Update\<close> ends the run.
  The frames still to come are the list; the run of a finite list that ends without an
  error returns no error.
\<close>

fun RunGame ::
  "(input \<Rightarrow> 'g \<Rightarrow> panic + ('g \<times> err option)) \<Rightarrow> frame \<Rightarrow> frame list \<Rightarrow> 'g
     \<Rightarrow> panic + ('g \<times> err option)" where
  "RunGame upd prev [] g = Inr (g, None)"
| "RunGame upd prev (f # fs) g =
     (case upd (engine_input prev f) g of
        Inl p \<Rightarrow> Inl p
      | Inr (g', Some e) \<Rightarrow> Inr (g', Some e)
      | Inr (g', None) \<Rightarrow> RunGame upd f fs g')"

text \<open>
  What \<open>main\<close> does with the error of \<open>RunGame\<close> (the same lines in basic-input,
  polygon-making, the shapes demo, starfield and connect-lines): the lines printed on
  standard output and the exit status. \<open>log.Fatal\<close> exits with status 1.
\<close>

definition main_exit :: "err option \<Rightarrow> string list \<times> int" where
  "main_exit r =
     (case r of
        None \<Rightarrow> ([], 0)
      | Some e \<Rightarrow> (if e = ErrCleanExit then ([''Good bye!''], 0) else ([], 1)))"

text \<open>The \<open>main\<close> of the turns demo has no sentinel: every error is fatal.\<close>

definition turns_main_exit :: "err option \<Rightarrow> string list \<times> int" where
  "turns_main_exit r = (case r of None \<Rightarrow> ([], 0) | Some e \<Rightarrow> ([], 1))"

section \<open>turns\<close>

record turns_Game =
  turns_turn :: int

definition turns_Update :: "input \<Rightarrow> turns_Game \<Rightarrow> panic + (turns_Game \<times> err option)" where
  "turns_Update inp g =
     (let g1 = (if IsKeyJustPressed inp KeySpace
                then g\<lparr>turns_turn := add64 (turns_turn g) 1\<rparr> else g)
      in Inr (g1, None))"

text \<open>The number of frames of a run in which a key goes from up to down.\<close>

fun rising_edges :: "key \<Rightarrow> frame \<Rightarrow> frame list \<Rightarrow> nat" where
  "rising_edges k prev [] = 0"
| "rising_edges k prev (f # fs) =
     (if keysDown f k \<and> \<not> keysDown prev k then 1 else 0) + rising_edges k f fs"

section \<open>Shared pieces of the demos\<close>

text \<open>
  An \<open>*ebiten.Image\<close>, as far as the demos read it: \<open>Size\<close> and the alpha channel
  of \<open>At\<close>. The engine's \<open>At\<close> returns the zero colour outside the image.
\<close>

record image =
  img_w :: int
  img_h :: int
  img_alpha :: "int \<Rightarrow> int \<Rightarrow> nat"

definition At_A :: "image \<Rightarrow> int \<Rightarrow> int \<Rightarrow> nat" where
  "At_A im px py =
     (if 0 \<le> px \<and> px < img_w im \<and> 0 \<le> py \<and> py < img_h im then img_alpha im px py else 0)"

text \<open>The pixels of an image with a non-zero alpha, in image coordinates.\<close>

definition opaque_pixels :: "image \<Rightarrow> (int \<times> int) list" where
  "opaque_pixels im =
     filter (\<lambda>(i, j). img_alpha im i j > 0)
       (List.product [0..img_w im - 1] [0..img_h im - 1])"

definition screenWidth :: int where
  "screenWidth = 640"

definition screenHeight :: int where
  "screenHeight = 480"

definition translateFactor :: int where
  "translateFactor = 10"

definition rotateFactor :: real where
  "rotateFactor = 5 / 100"

text \<open>\<open>xs[i]\<close> and a call of a pointer-receiver method on \<open>xs[i]\<close>, with Go's bounds check.\<close>

definition index :: "'a list \<Rightarrow> int \<Rightarrow> panic + 'a" where
  "index xs i =
     (if 0 \<le> i \<and> i < int (length xs) then Inr (xs ! nat i) else Inl IndexOutOfRange)"

definition modify :: "'a list \<Rightarrow> int \<Rightarrow> ('a \<Rightarrow> 'a) \<Rightarrow> panic + 'a list" where
  "modify xs i f =
     (if 0 \<le> i \<and> i < int (length xs) then Inr (xs[nat i := f (xs ! nat i)])
      else Inl IndexOutOfRange)"

text \<open>Statements in sequence: the first panic ends the function.\<close>

fun seq :: "('g \<Rightarrow> panic + 'g) list \<Rightarrow> 'g \<Rightarrow> panic + 'g" where
  "seq [] g = Inr g"
| "seq (f # fs) g = (case f g of Inl p \<Rightarrow> Inl p | Inr g' \<Rightarrow> seq fs g')"

text \<open>\<open>if c { act }\<close>.\<close>

definition ifthen :: "bool \<Rightarrow> ('g \<Rightarrow> panic + 'g) \<Rightarrow> 'g \<Rightarrow> panic + 'g" where
  "ifthen c act g = (if c then act g else Inr g)"

text \<open>The last statements of every \<open>Update\<close> but that of turns.\<close>

definition escape :: "input \<Rightarrow> err option" where
  "escape inp = (if IsKeyPressed inp KeyEscape then Some ErrCleanExit else None)"

text \<open>
  The selection loop \<open>for i := len(es) - 1; i >= 0; i-- { if es[i].In(cx, cy) { ...; break } }\<close>:
  \<open>hit_loop inside es n\<close> looks at the indices \<open>n - 1\<close> down to \<open>0\<close> and returns the
  first one whose entity is hit.
\<close>

fun hit_loop :: "('e \<Rightarrow> bool) \<Rightarrow> 'e list \<Rightarrow> nat \<Rightarrow> nat option" where
  "hit_loop inside es 0 = None"
| "hit_loop inside es (Suc i) = (if inside (es ! i) then Some i else hit_loop inside es i)"

section \<open>basic-input\<close>

record Sprite =
  Sprite_id :: string
  Sprite_img :: image
  Sprite_x :: int
  Sprite_y :: int

definition Sprite_In :: "Sprite \<Rightarrow> int \<times> int \<Rightarrow> bool" where
  "Sprite_In s c =
     (At_A (Sprite_img s) (sub64 (fst c) (Sprite_x s)) (sub64 (snd c) (Sprite_y s)) > 0)"

definition Sprite_MoveBy :: "int \<Rightarrow> int \<Rightarrow> Sprite \<Rightarrow> Sprite" where
  "Sprite_MoveBy dx dy s =
     (let w = img_w (Sprite_img s);
          h = img_h (Sprite_img s);
          s1 = s\<lparr>Sprite_x := add64 (Sprite_x s) dx\<rparr>;
          s2 = s1\<lparr>Sprite_y := add64 (Sprite_y s1) dy\<rparr>;
          s3 = (if Sprite_x s2 < 0 then s2\<lparr>Sprite_x := 0\<rparr> else s2);
          s4 = (if Sprite_x s3 > sub64 screenWidth w
                then s3\<lparr>Sprite_x := sub64 screenWidth w\<rparr> else s3);
          s5 = (if Sprite_y s4 < 0 then s4\<lparr>Sprite_y := 0\<rparr> else s4);
          s6 = (if Sprite_y s5 > sub64 screenHeight h
                then s5\<lparr>Sprite_y := sub64 screenHeight h\<rparr> else s5)
      in s6)"

text \<open>
  \<open>Sprite.Draw\<close> blits the image translated by \<open>(s.x + dx, s.y + dy)\<close>: the screen
  pixels that receive an opaque pixel of the sprite.
\<close>

definition Sprite_Draw :: "Sprite \<Rightarrow> int \<Rightarrow> int \<Rightarrow> (int \<times> int) list" where
  "Sprite_Draw s dx dy =
     map (\<lambda>(i, j). (add64 (Sprite_x s) dx + i, add64 (Sprite_y s) dy + j))
       (opaque_pixels (Sprite_img s))"

record basic_Game =
  basic_s :: "Sprite list"
  basic_activeSprite :: int

text \<open>\<open>g.s[g.activeSprite].MoveBy(dx, dy)\<close>\<close>

definition basic_MoveActive :: "int \<Rightarrow> int \<Rightarrow> basic_Game \<Rightarrow> panic + basic_Game" where
  "basic_MoveActive dx dy g =
     (case modify (basic_s g) (basic_activeSprite g) (Sprite_MoveBy dx dy) of
        Inl p \<Rightarrow> Inl p
      | Inr ss \<Rightarrow> Inr (g\<lparr>basic_s := ss\<rparr>))"

definition basic_select :: "int \<times> int \<Rightarrow> basic_Game \<Rightarrow> panic + basic_Game" where
  "basic_select c g =
     (case hit_loop (\<lambda>s. Sprite_In s c) (basic_s g) (length (basic_s g)) of
        None \<Rightarrow> Inr g
      | Some i \<Rightarrow> Inr (g\<lparr>basic_activeSprite := int i\<rparr>))"

definition basic_Update :: "input \<Rightarrow> basic_Game \<Rightarrow> panic + (basic_Game \<times> err option)" where
  "basic_Update inp g =
     (case seq
        [ ifthen (IsKeyPressed inp KeyUp) (basic_MoveActive 0 (- translateFactor)),
          ifthen (IsKeyPressed inp KeyDown) (basic_MoveActive 0 translateFactor),
          ifthen (IsKeyPressed inp KeyLeft) (basic_MoveActive (- translateFactor) 0),
          ifthen (IsKeyPressed inp KeyRight) (basic_MoveActive translateFactor 0),
          ifthen (IsMouseButtonJustPressed inp MouseButtonLeft)
            (basic_select (CursorPosition inp)) ] g of
        Inl p \<Rightarrow> Inl p
      | Inr g' \<Rightarrow> Inr (g', escape inp))"

text \<open>
  \<open>Game.Draw\<close>: the debug text, which reads \<open>g.s[g.activeSprite]\<close>, and the pixels of
  every sprite in slice order.
\<close>

definition basic_Draw :: "basic_Game \<Rightarrow> panic + (string \<times> (int \<times> int) list list)" where
  "basic_Draw g =
     (case index (basic_s g) (basic_activeSprite g) of
        Inl p \<Rightarrow> Inl p
      | Inr s \<Rightarrow> Inr (''Active sprite: '' @ Sprite_id s, map (\<lambda>s. Sprite_Draw s 0 0) (basic_s g)))"

section \<open>polygon-making\<close>

text \<open>
  The two polygon programs (polygon-making, and the variant that passes the colour to
  \<open>genPolygon\<close>) share \<open>Polygon\<close>, \<open>Game\<close> and \<open>Update\<close> line by line. A
  \<open>float64\<close> is taken as a real number.
\<close>

record Vertex =
  DstX :: real
  DstY :: real
  SrcX :: real
  SrcY :: real
  ColorR :: real
  ColorG :: real
  ColorB :: real
  ColorA :: real

definition zeroVertex :: Vertex where
  "zeroVertex =
     \<lparr> DstX = 0, DstY = 0, SrcX = 0, SrcY = 0, ColorR = 0, ColorG = 0, ColorB = 0, ColorA = 0 \<rparr>"

text \<open>The vertex that the first loop of \<open>genPolygon\<close> stores at \<open>vs[i]\<close>.\<close>

definition rimVertex :: "real \<Rightarrow> real \<Rightarrow> real \<Rightarrow> real \<Rightarrow> int \<Rightarrow> int \<Rightarrow> nat \<Rightarrow> Vertex" where
  "rimVertex cr cg cb ca radius num i =
     (let rate = real i / real_of_int num
      in \<lparr> DstX = real_of_int radius * cos (2 * pi * rate) + real_of_int radius,
           DstY = real_of_int radius * sin (2 * pi * rate) + real_of_int radius,
           SrcX = 0, SrcY = 0, ColorR = cr, ColorG = cg, ColorB = cb, ColorA = ca \<rparr>)"

definition centreVertex :: "real \<Rightarrow> real \<Rightarrow> real \<Rightarrow> real \<Rightarrow> int \<Rightarrow> Vertex" where
  "centreVertex cr cg cb ca radius =
     \<lparr> DstX = real_of_int radius, DstY = real_of_int radius,
       SrcX = 0, SrcY = 0, ColorR = cr, ColorG = cg, ColorB = cb, ColorA = ca \<rparr>"

text \<open>
  \<open>genPolygon\<close> with the colour components as parameters: \<open>make\<close> panics on a negative
  length, \<open>vs[len(vs)-1]\<close> on an empty slice, and \<open>% uint16(num)\<close> on a zero divisor.
\<close>

definition genPolygonOf ::
  "real \<Rightarrow> real \<Rightarrow> real \<Rightarrow> real \<Rightarrow> int \<Rightarrow> int \<Rightarrow> panic + (Vertex list \<times> nat list)" where
  "genPolygonOf cr cg cb ca radius num =
     (if add64 num 1 < 0 then Inl NegativeLen
      else
        let vs0 = replicate (nat (add64 num 1)) zeroVertex;
            vs1 = fold (\<lambda>i vs. vs[i := rimVertex cr cg cb ca radius num i]) [0..<nat num] vs0
        in if length vs1 = 0 then Inl IndexOutOfRange
           else
             let vs2 = vs1[length vs1 - 1 := centreVertex cr cg cb ca radius]
             in if 0 < num \<and> uint16 num = 0 then Inl DivideByZero
                else Inr (vs2,
                  fold (\<lambda>i indices.
                          indices @ [uint16 (int i), uint16 (int i + 1) mod uint16 num, uint16 num])
                    [0..<nat num] []))"

text \<open>\<open>genPolygon(radius, num)\<close> of polygon-making: every colour component is 1.\<close>

definition genPolygon :: "int \<Rightarrow> int \<Rightarrow> panic + (Vertex list \<times> nat list)" where
  "genPolygon radius num = genPolygonOf 1 1 1 1 radius num"

text \<open>\<open>genPolygon(radius, num, color)\<close> of the variant: the components of a \<open>color.RGBA\<close>.\<close>

definition genPolygonRGBA ::
  "int \<Rightarrow> int \<Rightarrow> nat \<times> nat \<times> nat \<times> nat \<Rightarrow> panic + (Vertex list \<times> nat list)" where
  "genPolygonRGBA radius num clr =
     (case clr of (R, G, B, A) \<Rightarrow>
        genPolygonOf (real R / 255) (real G / 255) (real B / 255) (real A / 255) radius num)"

record Polygon =
  Polygon_id :: string
  Polygon_x :: int
  Polygon_y :: int
  Polygon_radius :: int
  Polygon_theta :: real
  Polygon_img :: image

definition Polygon_In :: "Polygon \<Rightarrow> int \<times> int \<Rightarrow> bool" where
  "Polygon_In p c =
     (At_A (Polygon_img p)
        (add64 (sub64 (fst c) (Polygon_x p)) (Polygon_radius p))
        (add64 (sub64 (snd c) (Polygon_y p)) (Polygon_radius p)) > 0)"

definition Polygon_MoveBy :: "int \<Rightarrow> int \<Rightarrow> Polygon \<Rightarrow> Polygon" where
  "Polygon_MoveBy dx dy p =
     (let p1 = p\<lparr>Polygon_x := add64 (Polygon_x p) dx\<rparr>;
          p2 = p1\<lparr>Polygon_y := add64 (Polygon_y p1) dy\<rparr>;
          p3 = (if Polygon_x p2 < add64 0 (Polygon_radius p2)
                then p2\<lparr>Polygon_x := add64 0 (Polygon_radius p2)\<rparr> else p2);
          p4 = (if Polygon_x p3 > sub64 screenWidth (Polygon_radius p3)
                then p3\<lparr>Polygon_x := sub64 screenWidth (Polygon_radius p3)\<rparr> else p3);
          p5 = (if Polygon_y p4 < add64 0 (Polygon_radius p4)
                then p4\<lparr>Polygon_y := add64 0 (Polygon_radius p4)\<rparr> else p4);
          p6 = (if Polygon_y p5 > sub64 screenHeight (Polygon_radius p5)
                then p5\<lparr>Polygon_y := sub64 screenHeight (Polygon_radius p5)\<rparr> else p5)
      in p6)"

text \<open>
  The geometry matrix of \<open>Polygon.Draw\<close> and \<open>Shape.Draw\<close>, applied to a point of the
  image: \<open>Translate(-w/2, -h/2)\<close>, \<open>Rotate(theta)\<close>, \<open>Translate(x, y)\<close>.
\<close>

definition centred_GeoM :: "int \<Rightarrow> int \<Rightarrow> real \<Rightarrow> int \<Rightarrow> int \<Rightarrow> real \<times> real \<Rightarrow> real \<times> real" where
  "centred_GeoM w h theta px py uv =
     (let u1 = fst uv - real_of_int w / 2;
          v1 = snd uv - real_of_int h / 2;
          u2 = u1 * cos theta - v1 * sin theta;
          v2 = u1 * sin theta + v1 * cos theta
      in (u2 + real_of_int px, v2 + real_of_int py))"

text \<open>Where the corner of every opaque pixel of the image goes on the screen.\<close>

definition Polygon_Draw :: "Polygon \<Rightarrow> (real \<times> real) list" where
  "Polygon_Draw p =
     map (\<lambda>(i, j).
            centred_GeoM (img_w (Polygon_img p)) (img_h (Polygon_img p)) (Polygon_theta p)
              (Polygon_x p) (Polygon_y p) (real_of_int i, real_of_int j))
       (opaque_pixels (Polygon_img p))"

record polygon_Game =
  polygon_fullscreen :: bool
  polygon_p :: "Polygon list"
  polygon_activePolygon :: int

text \<open>\<open>g.p[g.activePolygon].MoveBy(dx, dy)\<close>\<close>

definition polygon_MoveActive :: "int \<Rightarrow> int \<Rightarrow> polygon_Game \<Rightarrow> panic + polygon_Game" where
  "polygon_MoveActive dx dy g =
     (case modify (polygon_p g) (polygon_activePolygon g) (Polygon_MoveBy dx dy) of
        Inl e \<Rightarrow> Inl e
      | Inr ps \<Rightarrow> Inr (g\<lparr>polygon_p := ps\<rparr>))"

text \<open>\<open>g.p[g.activePolygon].theta += d\<close>\<close>

definition polygon_RotateActive :: "real \<Rightarrow> polygon_Game \<Rightarrow> panic + polygon_Game" where
  "polygon_RotateActive d g =
     (case modify (polygon_p g) (polygon_activePolygon g)
             (\<lambda>p. p\<lparr>Polygon_theta := Polygon_theta p + d\<rparr>) of
        Inl e \<Rightarrow> Inl e
      | Inr ps \<Rightarrow> Inr (g\<lparr>polygon_p := ps\<rparr>))"

text \<open>\<open>g.activePolygon = (g.activePolygon + 1) % len(g.p)\<close>\<close>

definition polygon_next :: "polygon_Game \<Rightarrow> panic + polygon_Game" where
  "polygon_next g =
     (if length (polygon_p g) = 0 then Inl DivideByZero
      else Inr (g\<lparr>polygon_activePolygon :=
                   go_rem (add64 (polygon_activePolygon g) 1) (int (length (polygon_p g)))\<rparr>))"

definition polygon_toggle :: "polygon_Game \<Rightarrow> panic + polygon_Game" where
  "polygon_toggle g = Inr (g\<lparr>polygon_fullscreen := \<not> polygon_fullscreen g\<rparr>)"

definition polygon_select :: "int \<times> int \<Rightarrow> polygon_Game \<Rightarrow> panic + polygon_Game" where
  "polygon_select c g =
     (case hit_loop (\<lambda>p. Polygon_In p c) (polygon_p g) (length (polygon_p g)) of
        None \<Rightarrow> Inr g
      | Some i \<Rightarrow> Inr (g\<lparr>polygon_activePolygon := int i\<rparr>))"

definition polygon_Update :: "input \<Rightarrow> polygon_Game \<Rightarrow> panic + (polygon_Game \<times> err option)" where
  "polygon_Update inp g =
     (case seq
        [ ifthen (IsKeyPressed inp KeyUp \<or> IsKeyPressed inp KeyW)
            (polygon_MoveActive 0 (- translateFactor)),
          ifthen (IsKeyPressed inp KeyDown \<or> IsKeyPressed inp KeyS)
            (polygon_MoveActive 0 translateFactor),
          ifthen (IsKeyPressed inp KeyLeft \<or> IsKeyPressed inp KeyA)
            (polygon_MoveActive (- translateFactor) 0),
          ifthen (IsKeyPressed inp KeyRight \<or> IsKeyPressed inp KeyD)
            (polygon_MoveActive translateFactor 0),
          ifthen (IsKeyPressed inp KeyQ) (polygon_RotateActive (- rotateFactor)),
          ifthen (IsKeyPressed inp KeyE) (polygon_RotateActive rotateFactor),
          ifthen (IsKeyJustPressed inp KeySpace) polygon_next,
          ifthen (IsKeyJustPressed inp KeyF) polygon_toggle,
          ifthen (IsMouseButtonJustPressed inp MouseButtonLeft)
            (polygon_select (CursorPosition inp)) ] g of
        Inl e \<Rightarrow> Inl e
      | Inr g' \<Rightarrow> Inr (g', escape inp))"

definition polygon_Draw :: "polygon_Game \<Rightarrow> panic + (string \<times> (real \<times> real) list list)" where
  "polygon_Draw g =
     (case index (polygon_p g) (polygon_activePolygon g) of
        Inl e \<Rightarrow> Inl e
      | Inr p \<Rightarrow> Inr (''Active polygon: '' @ Polygon_id p, map Polygon_Draw (polygon_p g)))"

section \<open>The shapes demo\<close>

text \<open>
  The program whose window title is \<open>Shapes gg\<close>. Its bitmaps come from an external
  rasteriser; a \<open>Shape\<close> holds the finished image.
\<close>

record Shape =
  Shape_id :: string
  Shape_x :: int
  Shape_y :: int
  Shape_theta :: real
  Shape_img :: image

definition Shape_In :: "Shape \<Rightarrow> int \<times> int \<Rightarrow> bool" where
  "Shape_In s c =
     (let w = img_w (Shape_img s);
          h = img_h (Shape_img s)
      in At_A (Shape_img s)
           (add64 (sub64 (fst c) (Shape_x s)) w)
           (add64 (sub64 (snd c) (Shape_y s)) h) > 0)"

definition Shape_MoveBy :: "int \<Rightarrow> int \<Rightarrow> Shape \<Rightarrow> Shape" where
  "Shape_MoveBy dx dy s =
     (let s1 = s\<lparr>Shape_x := add64 (Shape_x s) dx\<rparr>;
          s2 = s1\<lparr>Shape_y := add64 (Shape_y s1) dy\<rparr>;
          w = img_w (Shape_img s2);
          h = img_h (Shape_img s2);
          s3 = (if Shape_x s2 < add64 0 w then s2\<lparr>Shape_x := add64 0 w\<rparr> else s2);
          s4 = (if Shape_x s3 > sub64 screenWidth w
                then s3\<lparr>Shape_x := sub64 screenWidth w\<rparr> else s3);
          s5 = (if Shape_y s4 < add64 0 h then s4\<lparr>Shape_y := add64 0 h\<rparr> else s4);
          s6 = (if Shape_y s5 > sub64 screenHeight h
                then s5\<lparr>Shape_y := sub64 screenHeight h\<rparr> else s5)
      in s6)"

definition Shape_Draw :: "Shape \<Rightarrow> (real \<times> real) list" where
  "Shape_Draw s =
     map (\<lambda>(i, j).
            centred_GeoM (img_w (Shape_img s)) (img_h (Shape_img s)) (Shape_theta s)
              (Shape_x s) (Shape_y s) (real_of_int i, real_of_int j))
       (opaque_pixels (Shape_img s))"

record shapes_Game =
  shapes_fullscreen :: bool
  shapes_s :: "Shape list"
  shapes_activeShape :: int

definition shapes_MoveActive :: "int \<Rightarrow> int \<Rightarrow> shapes_Game \<Rightarrow> panic + shapes_Game" where
  "shapes_MoveActive dx dy g =
     (case modify (shapes_s g) (shapes_activeShape g) (Shape_MoveBy dx dy) of
        Inl e \<Rightarrow> Inl e
      | Inr ss \<Rightarrow> Inr (g\<lparr>shapes_s := ss\<rparr>))"

definition shapes_RotateActive :: "real \<Rightarrow> shapes_Game \<Rightarrow> panic + shapes_Game" where
  "shapes_RotateActive d g =
     (case modify (shapes_s g) (shapes_activeShape g)
             (\<lambda>s. s\<lparr>Shape_theta := Shape_theta s + d\<rparr>) of
        Inl e \<Rightarrow> Inl e
      | Inr ss \<Rightarrow> Inr (g\<lparr>shapes_s := ss\<rparr>))"

definition shapes_next :: "shapes_Game \<Rightarrow> panic + shapes_Game" where
  "shapes_next g =
     (if length (shapes_s g) = 0 then Inl DivideByZero
      else Inr (g\<lparr>shapes_activeShape :=
                   go_rem (add64 (shapes_activeShape g) 1) (int (length (shapes_s g)))\<rparr>))"

definition shapes_toggle :: "shapes_Game \<Rightarrow> panic + shapes_Game" where
  "shapes_toggle g = Inr (g\<lparr>shapes_fullscreen := \<not> shapes_fullscreen g\<rparr>)"

definition shapes_select :: "int \<times> int \<Rightarrow> shapes_Game \<Rightarrow> panic + shapes_Game" where
  "shapes_select c g =
     (case hit_loop (\<lambda>s. Shape_In s c) (shapes_s g) (length (shapes_s g)) of
        None \<Rightarrow> Inr g
      | Some i \<Rightarrow> Inr (g\<lparr>shapes_activeShape := int i\<rparr>))"

definition shapes_Update :: "input \<Rightarrow> shapes_Game \<Rightarrow> panic + (shapes_Game \<times> err option)" where
  "shapes_Update inp g =
     (case seq
        [ ifthen (IsKeyPressed inp KeyUp \<or> IsKeyPressed inp KeyW)
            (shapes_MoveActive 0 (- translateFactor)),
          ifthen (IsKeyPressed inp KeyDown \<or> IsKeyPressed inp KeyS)
            (shapes_MoveActive 0 translateFactor),
          ifthen (IsKeyPressed inp KeyLeft \<or> IsKeyPressed inp KeyA)
            (shapes_MoveActive (- translateFactor) 0),
          ifthen (IsKeyPressed inp KeyRight \<or> IsKeyPressed inp KeyD)
            (shapes_MoveActive translateFactor 0),
          ifthen (IsKeyPressed inp KeyQ) (shapes_RotateActive (- rotateFactor)),
          ifthen (IsKeyPressed inp KeyE) (shapes_RotateActive rotateFactor),
          ifthen (IsKeyJustPressed inp KeySpace) shapes_next,
          ifthen (IsKeyJustPressed inp KeyF) shapes_toggle,
          ifthen (IsMouseButtonJustPressed inp MouseButtonLeft)
            (shapes_select (CursorPosition inp)) ] g of
        Inl e \<Rightarrow> Inl e
      | Inr g' \<Rightarrow> Inr (g', escape inp))"

definition shapes_Draw :: "shapes_Game \<Rightarrow> panic + (string \<times> (real \<times> real) list list)" where
  "shapes_Draw g =
     (case index (shapes_s g) (shapes_activeShape g) of
        Inl e \<Rightarrow> Inl e
      | Inr s \<Rightarrow> Inr (''Active shape: '' @ Shape_id s, map Shape_Draw (shapes_s g)))"

section \<open>starfield\<close>

definition translateNear :: int where
  "translateNear = 3"

definition translateFar :: int where
  "translateFar = 1"

record Star =
  Star_x :: int
  Star_y :: int
  Star_radius :: int
  Star_img :: image

definition Star_In :: "Star \<Rightarrow> int \<times> int \<Rightarrow> bool" where
  "Star_In s c =
     (At_A (Star_img s)
        (add64 (sub64 (fst c) (Star_x s)) (Star_radius s))
        (add64 (sub64 (snd c) (Star_y s)) (Star_radius s)) > 0)"

definition Star_MoveBy :: "int \<Rightarrow> int \<Rightarrow> Star \<Rightarrow> Star" where
  "Star_MoveBy dx dy s =
     (let s1 = s\<lparr>Star_x := add64 (Star_x s) dx\<rparr>;
          s2 = s1\<lparr>Star_y := add64 (Star_y s1) dy\<rparr>;
          s3 = (if Star_x s2 > screenWidth then s2\<lparr>Star_x := 0\<rparr> else s2);
          s4 = (if Star_x s3 < 0 then s3\<lparr>Star_x := screenWidth\<rparr> else s3);
          s5 = (if Star_y s4 > screenHeight then s4\<lparr>Star_y := 0\<rparr> else s4);
          s6 = (if Star_y s5 < 0 then s5\<lparr>Star_y := screenHeight\<rparr> else s5)
      in s6)"

record starfield_Game =
  starfield_fullscreen :: bool
  starfield_nearStars :: "Star list"
  starfield_farStars :: "Star list"

definition MoveView :: "int \<Rightarrow> int \<Rightarrow> starfield_Game \<Rightarrow> panic + starfield_Game" where
  "MoveView vx vy g =
     (let g1 = g\<lparr>starfield_nearStars :=
                   map (Star_MoveBy (mul64 vx translateNear) (mul64 vy translateNear))
                     (starfield_nearStars g)\<rparr>;
          g2 = g1\<lparr>starfield_farStars :=
                   map (Star_MoveBy (mul64 vx translateFar) (mul64 vy translateFar))
                     (starfield_farStars g1)\<rparr>
      in Inr g2)"

definition starfield_toggle :: "starfield_Game \<Rightarrow> panic + starfield_Game" where
  "starfield_toggle g = Inr (g\<lparr>starfield_fullscreen := \<not> starfield_fullscreen g\<rparr>)"

definition starfield_Update ::
  "input \<Rightarrow> starfield_Game \<Rightarrow> panic + (starfield_Game \<times> err option)" where
  "starfield_Update inp g =
     (case seq
        [ ifthen (IsKeyPressed inp KeyUp \<or> IsKeyPressed inp KeyW) (MoveView 0 (- 1)),
          ifthen (IsKeyPressed inp KeyDown \<or> IsKeyPressed inp KeyS) (MoveView 0 1),
          ifthen (IsKeyPressed inp KeyLeft \<or> IsKeyPressed inp KeyA) (MoveView (- 1) 0),
          ifthen (IsKeyPressed inp KeyRight \<or> IsKeyPressed inp KeyD) (MoveView 1 0),
          ifthen (IsKeyJustPressed inp KeyF) starfield_toggle ] g of
        Inl e \<Rightarrow> Inl e
      | Inr g' \<Rightarrow> Inr (g', escape inp))"

section \<open>connect-lines\<close>

definition translate :: int where
  "translate = 1"

record Block =
  Block_id :: string
  Block_x :: int
  Block_y :: int
  Block_size :: int
  Block_clr :: "nat \<times> nat \<times> nat \<times> nat"
  Block_img :: image

definition Block_In :: "Block \<Rightarrow> int \<times> int \<Rightarrow> bool" where
  "Block_In b c =
     (if fst c \<ge> Block_x b \<and> fst c \<le> add64 (Block_x b) (Block_size b) \<and>
         snd c \<ge> Block_y b \<and> snd c \<le> add64 (Block_y b) (Block_size b)
      then True else False)"

definition Block_Move :: "int \<Rightarrow> int \<Rightarrow> Block \<Rightarrow> Block" where
  "Block_Move dx dy b =
     (let b1 = b\<lparr>Block_x := add64 (Block_x b) dx\<rparr>;
          b2 = b1\<lparr>Block_y := add64 (Block_y b1) dy\<rparr>;
          b3 = (if add64 (Block_x b2) (Block_size b2) > screenWidth
                then b2\<lparr>Block_x := sub64 screenWidth (Block_size b2)\<rparr> else b2);
          b4 = (if Block_x b3 < 0 then b3\<lparr>Block_x := 0\<rparr> else b3);
          b5 = (if add64 (Block_y b4) (Block_size b4) > screenHeight
                then b4\<lparr>Block_y := sub64 screenHeight (Block_size b4)\<rparr> else b4);
          b6 = (if Block_y b5 < 0 then b5\<lparr>Block_y := 0\<rparr> else b5)
      in b6)"

record connected =
  blk1 :: int
  blk2 :: int

record lines_Game =
  lines_fullscreen :: bool
  lines_blocks :: "Block list"
  lines_connections :: "connected list"
  lines_selected :: int

definition lines_MoveSelected :: "int \<Rightarrow> int \<Rightarrow> lines_Game \<Rightarrow> panic + lines_Game" where
  "lines_MoveSelected dx dy g =
     (case modify (lines_blocks g) (lines_selected g) (Block_Move dx dy) of
        Inl e \<Rightarrow> Inl e
      | Inr bs \<Rightarrow> Inr (g\<lparr>lines_blocks := bs\<rparr>))"

definition lines_toggle :: "lines_Game \<Rightarrow> panic + lines_Game" where
  "lines_toggle g = Inr (g\<lparr>lines_fullscreen := \<not> lines_fullscreen g\<rparr>)"

definition lines_select :: "int \<times> int \<Rightarrow> lines_Game \<Rightarrow> panic + lines_Game" where
  "lines_select c g =
     (case hit_loop (\<lambda>b. Block_In b c) (lines_blocks g) (length (lines_blocks g)) of
        None \<Rightarrow> Inr g
      | Some i \<Rightarrow> Inr (g\<lparr>lines_selected := int i\<rparr>))"

definition connect :: "int \<Rightarrow> int \<Rightarrow> lines_Game \<Rightarrow> panic + lines_Game" where
  "connect b1 b2 g =
     Inr (g\<lparr>lines_connections := lines_connections g @ [\<lparr>blk1 = b1, blk2 = b2\<rparr>]\<rparr>)"

text \<open>The loop of the right mouse button.\<close>

definition lines_link :: "int \<times> int \<Rightarrow> lines_Game \<Rightarrow> panic + lines_Game" where
  "lines_link c g =
     (case hit_loop (\<lambda>b. Block_In b c) (lines_blocks g) (length (lines_blocks g)) of
        None \<Rightarrow> Inr g
      | Some i \<Rightarrow> (if int i \<noteq> lines_selected g then connect (lines_selected g) (int i) g
                   else Inr g))"

definition lines_Update :: "input \<Rightarrow> lines_Game \<Rightarrow> panic + (lines_Game \<times> err option)" where
  "lines_Update inp g =
     (case seq
        [ ifthen (IsKeyPressed inp KeyUp \<or> IsKeyPressed inp KeyW)
            (lines_MoveSelected 0 (- translate)),
          ifthen (IsKeyPressed inp KeyDown \<or> IsKeyPressed inp KeyS)
            (lines_MoveSelected 0 translate),
          ifthen (IsKeyPressed inp KeyLeft \<or> IsKeyPressed inp KeyA)
            (lines_MoveSelected (- translate) 0),
          ifthen (IsKeyPressed inp KeyRight \<or> IsKeyPressed inp KeyD)
            (lines_MoveSelected translate 0),
          ifthen (IsKeyJustPressed inp KeyF) lines_toggle,
          ifthen (IsMouseButtonJustPressed inp MouseButtonLeft)
            (lines_select (CursorPosition inp)),
          ifthen (IsMouseButtonJustPressed inp MouseButtonRight)
            (lines_link (CursorPosition inp)) ] g of
        Inl e \<Rightarrow> Inl e
      | Inr g' \<Rightarrow> Inr (g', escape inp))"

text \<open>
  \<open>Game.Draw\<close>: the debug text reads \<open>g.blocks[g.selected]\<close>, and the loop over the
  connections reads \<open>g.blocks[c.blk1]\<close> and \<open>g.blocks[c.blk2]\<close>. The result is the text
  and the pairs of blocks joined by a line.
\<close>

fun lines_DrawConnections :: "Block list \<Rightarrow> connected list \<Rightarrow> panic + (Block \<times> Block) list" where
  "lines_DrawConnections bs [] = Inr []"
| "lines_DrawConnections bs (c # cs) =
     (case index bs (blk1 c) of
        Inl e \<Rightarrow> Inl e
      | Inr b1 \<Rightarrow>
         (case index bs (blk2 c) of
            Inl e \<Rightarrow> Inl e
          | Inr b2 \<Rightarrow>
             (case lines_DrawConnections bs cs of
                Inl e \<Rightarrow> Inl e
              | Inr ls \<Rightarrow> Inr ((b1, b2) # ls))))"

definition lines_Draw :: "lines_Game \<Rightarrow> panic + (string \<times> (Block \<times> Block) list)" where
  "lines_Draw g =
     (case index (lines_blocks g) (lines_selected g) of
        Inl e \<Rightarrow> Inl e
      | Inr b \<Rightarrow>
         (case lines_DrawConnections (lines_blocks g) (lines_connections g) of
            Inl e \<Rightarrow> Inl e
          | Inr ls \<Rightarrow> Inr (''Active block: '' @ Block_id b, ls)))"

section \<open>The vocabulary of the properties\<close>














text \<open>Concrete entities: a bitmap with every pixel opaque, and one entity of each kind near an edge.\<close>

definition solid :: "int \<Rightarrow> int \<Rightarrow> image" where
  "solid w h = \<lparr> img_w = w, img_h = h, img_alpha = (\<lambda>i j. 255) \<rparr>"






text \<open>
  A statement runs from every state of \<open>P\<close> without a panic into a state of \<open>Q\<close>.
\<close>

definition ensures :: "('g \<Rightarrow> bool) \<Rightarrow> ('g \<Rightarrow> panic + 'g) \<Rightarrow> ('g \<Rightarrow> bool) \<Rightarrow> bool" where
  "ensures P f Q = (\<forall>g. P g \<longrightarrow> (\<exists>g'. f g = Inr g' \<and> Q g'))"

text \<open>
  Between two states of an entity list: the lengths agree, every entity but the one at
  index \<open>a\<close> is as it was, and every entity is \<open>same\<close> as before (its fixed fields).
\<close>

definition only_active :: "('e \<Rightarrow> 'e \<Rightarrow> bool) \<Rightarrow> int \<Rightarrow> 'e list \<Rightarrow> 'e list \<Rightarrow> bool" where
  "only_active same a es es' =
     (length es' = length es \<and>
      (\<forall>i<length es. (int i \<noteq> a \<longrightarrow> es' ! i = es ! i) \<and> same (es ! i) (es' ! i)))"

text \<open>The index a click selects: the hit of the selection loop, or the index as it was.\<close>

definition chosen :: "('e \<Rightarrow> bool) \<Rightarrow> 'e list \<Rightarrow> int \<Rightarrow> int" where
  "chosen inside es a = (case hit_loop inside es (length es) of Some i \<Rightarrow> int i | None \<Rightarrow> a)"

definition Sprite_same :: "Sprite \<Rightarrow> Sprite \<Rightarrow> bool" where
  "Sprite_same s s' = (Sprite_id s' = Sprite_id s \<and> Sprite_img s' = Sprite_img s)"

definition basic_valid :: "basic_Game \<Rightarrow> bool" where
  "basic_valid g = (0 \<le> basic_activeSprite g \<and> basic_activeSprite g < int (length (basic_s g)))"

definition basic_inv :: "basic_Game \<Rightarrow> int \<Rightarrow> basic_Game \<Rightarrow> bool" where
  "basic_inv g0 a g =
     (basic_valid g \<and> basic_activeSprite g = a \<and>
      only_active Sprite_same (basic_activeSprite g0) (basic_s g0) (basic_s g))"

definition Polygon_same :: "Polygon \<Rightarrow> Polygon \<Rightarrow> bool" where
  "Polygon_same p p' =
     (Polygon_id p' = Polygon_id p \<and> Polygon_radius p' = Polygon_radius p \<and>
      Polygon_img p' = Polygon_img p)"

text \<open>
  The active index is in range; a Go slice has fewer than \<open>2^63\<close> elements.
\<close>

definition polygon_valid :: "polygon_Game \<Rightarrow> bool" where
  "polygon_valid g =
     (0 \<le> polygon_activePolygon g \<and> polygon_activePolygon g < int (length (polygon_p g)) \<and>
      int (length (polygon_p g)) < 2 ^ 63)"

definition polygon_inv :: "polygon_Game \<Rightarrow> int \<Rightarrow> bool \<Rightarrow> polygon_Game \<Rightarrow> bool" where
  "polygon_inv g0 a fs g =
     (polygon_valid g \<and> polygon_activePolygon g = a \<and> polygon_fullscreen g = fs \<and>
      only_active Polygon_same (polygon_activePolygon g0) (polygon_p g0) (polygon_p g))"

text \<open>The index after the space key and the click of one \<open>Update\<close>.\<close>

definition polygon_index_after :: "input \<Rightarrow> polygon_Game \<Rightarrow> Polygon list \<Rightarrow> int" where
  "polygon_index_after inp g ps =
     (let a7 = (if IsKeyJustPressed inp KeySpace
                then (polygon_activePolygon g + 1) mod int (length (polygon_p g))
                else polygon_activePolygon g)
      in if IsMouseButtonJustPressed inp MouseButtonLeft
         then chosen (\<lambda>p. Polygon_In p (CursorPosition inp)) ps a7 else a7)"

definition Shape_same :: "Shape \<Rightarrow> Shape \<Rightarrow> bool" where
  "Shape_same p p' = (Shape_id p' = Shape_id p \<and> Shape_img p' = Shape_img p)"

text \<open>
  The active index is in range; a Go slice has fewer than \<open>2^63\<close> elements.
\<close>

definition shapes_valid :: "shapes_Game \<Rightarrow> bool" where
  "shapes_valid g =
     (0 \<le> shapes_activeShape g \<and> shapes_activeShape g < int (length (shapes_s g)) \<and>
      int (length (shapes_s g)) < 2 ^ 63)"

definition shapes_inv :: "shapes_Game \<Rightarrow> int \<Rightarrow> bool \<Rightarrow> shapes_Game \<Rightarrow> bool" where
  "shapes_inv g0 a fs g =
     (shapes_valid g \<and> shapes_activeShape g = a \<and> shapes_fullscreen g = fs \<and>
      only_active Shape_same (shapes_activeShape g0) (shapes_s g0) (shapes_s g))"

text \<open>The index after the space key and the click of one \<open>Update\<close>.\<close>

definition shapes_index_after :: "input \<Rightarrow> shapes_Game \<Rightarrow> Shape list \<Rightarrow> int" where
  "shapes_index_after inp g ps =
     (let a7 = (if IsKeyJustPressed inp KeySpace
                then (shapes_activeShape g + 1) mod int (length (shapes_s g))
                else shapes_activeShape g)
      in if IsMouseButtonJustPressed inp MouseButtonLeft
         then chosen (\<lambda>p. Shape_In p (CursorPosition inp)) ps a7 else a7)"

definition Block_same :: "Block \<Rightarrow> Block \<Rightarrow> bool" where
  "Block_same b b' =
     (Block_id b' = Block_id b \<and> Block_size b' = Block_size b \<and>
      Block_clr b' = Block_clr b \<and> Block_img b' = Block_img b)"

text \<open>A connection joins two indices of a list of \<open>n\<close> blocks, and they differ.\<close>

definition conn_ok :: "int \<Rightarrow> connected \<Rightarrow> bool" where
  "conn_ok n c =
     (0 \<le> blk1 c \<and> blk1 c < n \<and> 0 \<le> blk2 c \<and> blk2 c < n \<and> blk1 c \<noteq> blk2 c)"

definition lines_valid :: "lines_Game \<Rightarrow> bool" where
  "lines_valid g =
     (0 \<le> lines_selected g \<and> lines_selected g < int (length (lines_blocks g)) \<and>
      list_all (conn_ok (int (length (lines_blocks g)))) (lines_connections g))"

definition lines_inv ::
  "lines_Game \<Rightarrow> int \<Rightarrow> bool \<Rightarrow> connected list \<Rightarrow> lines_Game \<Rightarrow> bool" where
  "lines_inv g0 a fs cs g =
     (lines_valid g \<and> lines_selected g = a \<and> lines_fullscreen g = fs \<and>
      lines_connections g = cs \<and>
      only_active Block_same (lines_selected g0) (lines_blocks g0) (lines_blocks g))"

text \<open>The connections after a right click at \<open>cur\<close> with the block \<open>a\<close> selected.\<close>

definition linked :: "int \<times> int \<Rightarrow> Block list \<Rightarrow> int \<Rightarrow> connected list \<Rightarrow> connected list" where
  "linked cur bs a cs =
     (case hit_loop (\<lambda>b. Block_In b cur) bs (length bs) of
        None \<Rightarrow> cs
      | Some i \<Rightarrow> (if int i \<noteq> a then cs @ [\<lparr>blk1 = a, blk2 = int i\<rparr>] else cs))"

definition lines_index_after :: "input \<Rightarrow> lines_Game \<Rightarrow> Block list \<Rightarrow> int" where
  "lines_index_after inp g bs =
     (if IsMouseButtonJustPressed inp MouseButtonLeft
      then chosen (\<lambda>b. Block_In b (CursorPosition inp)) bs (lines_selected g)
      else lines_selected g)"

definition lines_connections_after :: "input \<Rightarrow> lines_Game \<Rightarrow> Block list \<Rightarrow> connected list" where
  "lines_connections_after inp g bs =
     (if IsMouseButtonJustPressed inp MouseButtonRight
      then linked (CursorPosition inp) bs (lines_index_after inp g bs) (lines_connections g)
      else lines_connections g)"

definition Star_same :: "Star \<Rightarrow> Star \<Rightarrow> bool" where
  "Star_same s s' = (Star_radius s' = Star_radius s \<and> Star_img s' = Star_img s)"

definition starfield_inv :: "starfield_Game \<Rightarrow> bool \<Rightarrow> starfield_Game \<Rightarrow> bool" where
  "starfield_inv g0 fs g =
     (starfield_fullscreen g = fs \<and>
      list_all2 Star_same (starfield_nearStars g0) (starfield_nearStars g) \<and>
      list_all2 Star_same (starfield_farStars g0) (starfield_farStars g))"

text \<open>The indices of the entities that contain a point.\<close>

definition hits :: "('e \<Rightarrow> bool) \<Rightarrow> 'e list \<Rightarrow> nat set" where
  "hits inside es = {j. j < length es \<and> inside (es ! j)}"

text \<open>A frame with one mouse button down and the cursor at a point.\<close>

definition clicking :: "button \<Rightarrow> int \<times> int \<Rightarrow> frame" where
  "clicking b0 c = \<lparr> keysDown = (\<lambda>k. False), buttonsDown = (\<lambda>b. b = b0), cursor = c \<rparr>"

text \<open>
  Start states after \<open>main\<close>: the two sprites of basic-input, the three polygons of
  polygon-making, the four shapes of the shapes demo (every bitmap stands for the
  rasterised one of the same size), two of the blocks of connect-lines, and three stars.
\<close>

definition basic_start :: basic_Game where
  "basic_start =
     \<lparr> basic_s =
         [ \<lparr> Sprite_id = ''0'', Sprite_img = solid 60 75, Sprite_x = 0, Sprite_y = 0 \<rparr>,
           \<lparr> Sprite_id = ''1'', Sprite_img = solid 60 75, Sprite_x = 100, Sprite_y = 100 \<rparr> ],
       basic_activeSprite = 0 \<rparr>"

definition polygon_start :: polygon_Game where
  "polygon_start =
     \<lparr> polygon_fullscreen = False,
       polygon_p =
         [ \<lparr> Polygon_id = ''Triangle'', Polygon_x = 0, Polygon_y = 10, Polygon_radius = 20,
             Polygon_theta = 0, Polygon_img = solid 40 40 \<rparr>,
           \<lparr> Polygon_id = ''Pentagon'', Polygon_x = 50, Polygon_y = 50, Polygon_radius = 20,
             Polygon_theta = 0, Polygon_img = solid 40 40 \<rparr>,
           \<lparr> Polygon_id = ''Circle'', Polygon_x = 100, Polygon_y = 100, Polygon_radius = 20,
             Polygon_theta = 0, Polygon_img = solid 40 40 \<rparr> ],
       polygon_activePolygon = 0 \<rparr>"

definition shapes_start :: shapes_Game where
  "shapes_start =
     \<lparr> shapes_fullscreen = False,
       shapes_s =
         [ \<lparr> Shape_id = ''Triangle'', Shape_x = 50, Shape_y = 50, Shape_theta = 0,
             Shape_img = solid 60 60 \<rparr>,
           \<lparr> Shape_id = ''Pentagon'', Shape_x = 100, Shape_y = 100, Shape_theta = 0,
             Shape_img = solid 60 60 \<rparr>,
           \<lparr> Shape_id = ''Rectangle'', Shape_x = 200, Shape_y = 200, Shape_theta = 0,
             Shape_img = solid 30 30 \<rparr>,
           \<lparr> Shape_id = ''Circle'', Shape_x = 300, Shape_y = 300, Shape_theta = 0,
             Shape_img = solid 60 60 \<rparr> ],
       shapes_activeShape = 0 \<rparr>"

definition lines_start :: lines_Game where
  "lines_start =
     \<lparr> lines_fullscreen = False,
       lines_blocks =
         [ \<lparr> Block_id = ''0'', Block_x = 10, Block_y = 10, Block_size = 3,
             Block_clr = (255, 255, 255, 255), Block_img = solid 3 3 \<rparr>,
           \<lparr> Block_id = ''1'', Block_x = 100, Block_y = 100, Block_size = 3,
             Block_clr = (255, 255, 255, 255), Block_img = solid 3 3 \<rparr> ],
       lines_connections = [],
       lines_selected = 0 \<rparr>"

definition starfield_start :: starfield_Game where
  "starfield_start =
     \<lparr> starfield_fullscreen = False,
       starfield_nearStars =
         [ \<lparr> Star_x = 10, Star_y = 20, Star_radius = 3, Star_img = solid 6 6 \<rparr>,
           \<lparr> Star_x = 300, Star_y = 40, Star_radius = 3, Star_img = solid 6 6 \<rparr> ],
       starfield_farStars =
         [ \<lparr> Star_x = 200, Star_y = 100, Star_radius = 3, Star_img = solid 6 6 \<rparr> ] \<rparr>"

text \<open>
  The result the polygon generation is to have, in the words of its description:
  \<open>num + 1\<close> vertices, vertex \<open>i\<close> at the angle \<open>2 \<pi> i / num\<close> on the circle of the
  given radius around \<open>(radius, radius)\<close>, the last vertex at the centre, and
  \<open>3 * num\<close> indices, the \<open>i\<close>-th triangle being \<open>(i, (i + 1) mod num, num)\<close>.
\<close>

definition is_fan :: "int \<Rightarrow> int \<Rightarrow> Vertex list \<times> nat list \<Rightarrow> bool" where
  "is_fan radius num out =
     (case out of (vs, indices) \<Rightarrow>
        length vs = nat num + 1 \<and>
        (\<forall>i < nat num.
           DstX (vs ! i) =
             real_of_int radius * cos (2 * pi * real i / real_of_int num) + real_of_int radius \<and>
           DstY (vs ! i) =
             real_of_int radius * sin (2 * pi * real i / real_of_int num) + real_of_int radius) \<and>
        DstX (vs ! nat num) = real_of_int radius \<and>
        DstY (vs ! nat num) = real_of_int radius \<and>
        length indices = 3 * nat num \<and>
        (\<forall>i < nat num.
           indices ! (3 * i) = i \<and>
           indices ! (3 * i + 1) = (i + 1) mod nat num \<and>
           indices ! (3 * i + 2) = nat num))"

text \<open>
  The rectangle of the shapes demo as \<open>main\<close> creates it: a 30 by 30 bitmap, every pixel
  filled, at \<open>(200, 200)\<close>, not rotated.
\<close>

definition rectangle_shape :: Shape where
  "rectangle_shape =
     \<lparr> Shape_id = ''Rectangle'', Shape_x = 200, Shape_y = 200, Shape_theta = 0,
       Shape_img = solid 30 30 \<rparr>"

section \<open>Facts about Go integers\<close>

lemma wrap64_id: "is_int64 v \<Longrightarrow> wrap64 v = v"
  by (simp add: wrap64_def is_int64_def)

lemma wrap64_range: "is_int64 (wrap64 v)"
proof -
  have "0 \<le> (v + 2 ^ 63) mod (2 ^ 64 :: int)" by simp
  moreover have "(v + 2 ^ 63) mod (2 ^ 64 :: int) < 2 ^ 64" by simp
  ultimately show ?thesis by (simp add: wrap64_def is_int64_def)
qed

section \<open>turns: the counter\<close>

lemma turns_Update_total: "\<exists>g'. turns_Update inp g = Inr (g', None)"
  by (simp add: turns_Update_def Let_def)

text \<open>
  Over a whole run the counter grows by the number of rising edges of the space key,
  whatever the number of frames the key is held down.
\<close>

lemma turns_run_counts:
  "is_int64 (turns_turn g) \<Longrightarrow> turns_turn g + int (length fs) < 2 ^ 63 \<Longrightarrow>
   \<exists>g'. RunGame turns_Update prev fs g = Inr (g', None) \<and>
        turns_turn g' = turns_turn g + int (rising_edges KeySpace prev fs)"
proof (induction fs arbitrary: prev g)
  case Nil
  then show ?case by simp
next
  case (Cons f fs)
  let ?g1 = "if keysDown f KeySpace \<and> \<not> keysDown prev KeySpace
             then g\<lparr>turns_turn := add64 (turns_turn g) 1\<rparr> else g"
  have step: "turns_Update (engine_input prev f) g = Inr (?g1, None)"
    by (simp add: turns_Update_def engine_input_def Let_def)
  have small: "is_int64 (turns_turn g + 1)"
    using Cons.prems by (simp add: is_int64_def)
  have t1: "turns_turn ?g1 =
      turns_turn g + (if keysDown f KeySpace \<and> \<not> keysDown prev KeySpace then 1 else 0)"
    using small by (simp add: add64_def wrap64_id)
  have r1: "is_int64 (turns_turn ?g1)"
    using Cons.prems small t1 by (auto simp: is_int64_def)
  have b1: "turns_turn ?g1 + int (length fs) < 2 ^ 63"
    using Cons.prems t1 by auto
  from Cons.IH [OF r1 b1, of f] obtain g' where
    run: "RunGame turns_Update f fs ?g1 = Inr (g', None)" and
    cnt: "turns_turn g' = turns_turn ?g1 + int (rising_edges KeySpace f fs)"
    by blast
  have "RunGame turns_Update prev (f # fs) g = Inr (g', None)"
    using step run by simp
  moreover have "turns_turn g' = turns_turn g + int (rising_edges KeySpace prev (f # fs))"
    using cnt t1 by auto
  ultimately show ?case by blast
qed

text \<open>
  Claim C2. In a frame of the turns demo, \<open>Update\<close> adds exactly one to the turn counter
  when the space key is down in this frame and was up in the frame before, and leaves the
  counter as it is when the key is held down since an earlier frame or is not down. The
  counter is a Go \<open>int\<close>: the statement is for a counter below the largest value of the
  type, which no run of the demo reaches.
\<close>

theorem turns_Update_edge_triggered:
  assumes "is_int64 (turns_turn g)" and "turns_turn g < 2 ^ 63 - 1"
  shows "\<exists>g'. turns_Update (engine_input prev cur) g = Inr (g', None) \<and>
     turns_turn g' =
       (if keysDown cur KeySpace \<and> \<not> keysDown prev KeySpace
        then turns_turn g + 1 else turns_turn g)"
proof -
  have "is_int64 (turns_turn g + 1)"
    using assms by (simp add: is_int64_def)
  then show ?thesis
    by (simp add: turns_Update_def engine_input_def Let_def add64_def wrap64_id)
qed

theorem turns_Update_edge_triggered_witness:
  "is_int64 (turns_turn \<lparr>turns_turn = 0\<rparr>) \<and> turns_turn \<lparr>turns_turn = 0\<rparr> < 2 ^ 63 - 1 \<and>
   (\<exists>g'. turns_Update (engine_input idle (pressing KeySpace)) \<lparr>turns_turn = 0\<rparr> = Inr (g', None) \<and>
         turns_turn g' = 1)"
  using turns_Update_edge_triggered [of "\<lparr>turns_turn = 0\<rparr>" idle "pressing KeySpace"]
  by (simp add: is_int64_def idle_def pressing_def)

section \<open>Moves and the screen\<close>



lemma is_int64_small: "- 1000000 \<le> v \<Longrightarrow> v \<le> 1000000 \<Longrightarrow> is_int64 v"
  by (simp add: is_int64_def)



subsection \<open>Sprite\<close>

lemma Sprite_MoveBy_same:
  "Sprite_img (Sprite_MoveBy dx dy s) = Sprite_img s \<and>
   Sprite_id (Sprite_MoveBy dx dy s) = Sprite_id s"
  by (simp add: Sprite_MoveBy_def Let_def)






subsection \<open>Polygon\<close>

lemma Polygon_MoveBy_same:
  "Polygon_radius (Polygon_MoveBy dx dy p) = Polygon_radius p \<and>
   Polygon_img (Polygon_MoveBy dx dy p) = Polygon_img p \<and>
   Polygon_id (Polygon_MoveBy dx dy p) = Polygon_id p \<and>
   Polygon_theta (Polygon_MoveBy dx dy p) = Polygon_theta p"
  by (simp add: Polygon_MoveBy_def Let_def)






subsection \<open>Shape\<close>

lemma Shape_MoveBy_same:
  "Shape_img (Shape_MoveBy dx dy s) = Shape_img s \<and>
   Shape_id (Shape_MoveBy dx dy s) = Shape_id s \<and>
   Shape_theta (Shape_MoveBy dx dy s) = Shape_theta s"
  by (simp add: Shape_MoveBy_def Let_def)






subsection \<open>Block\<close>

lemma Block_Move_same:
  "Block_size (Block_Move dx dy b) = Block_size b \<and>
   Block_img (Block_Move dx dy b) = Block_img b \<and>
   Block_id (Block_Move dx dy b) = Block_id b \<and>
   Block_clr (Block_Move dx dy b) = Block_clr b"
  by (simp add: Block_Move_def Let_def)







subsection \<open>Star\<close>

lemma Star_MoveBy_same:
  "Star_radius (Star_MoveBy dx dy s) = Star_radius s \<and>
   Star_img (Star_MoveBy dx dy s) = Star_img s"
  by (simp add: Star_MoveBy_def Let_def)








section \<open>One call of Update, statement by statement\<close>

lemma ensuresD: "ensures P f Q \<Longrightarrow> P g \<Longrightarrow> \<exists>g'. f g = Inr g' \<and> Q g'"
  by (simp add: ensures_def)

lemma ensures_seq_Nil: "(\<And>g. P g \<Longrightarrow> Q g) \<Longrightarrow> ensures P (seq []) Q"
  by (simp add: ensures_def)

lemma ensures_seq_Cons:
  assumes "ensures P f R" and "ensures R (seq fs) Q"
  shows "ensures P (seq (f # fs)) Q"
  unfolding ensures_def
proof (intro allI impI)
  fix g assume "P g"
  with assms(1) obtain g1 where 1: "f g = Inr g1" "R g1"
    by (auto simp: ensures_def)
  with assms(2) obtain g2 where 2: "seq fs g1 = Inr g2" "Q g2"
    by (auto simp: ensures_def)
  from 1 2 show "\<exists>g'. seq (f # fs) g = Inr g' \<and> Q g'"
    by simp
qed

lemma ensures_ifthen:
  assumes "c \<Longrightarrow> ensures P act Q" and "\<And>g. \<not> c \<Longrightarrow> P g \<Longrightarrow> Q g"
  shows "ensures P (ifthen c act) Q"
  using assms by (cases c) (auto simp: ensures_def ifthen_def)

lemma ensures_inv_ifthen: "ensures P act P \<Longrightarrow> ensures P (ifthen c act) P"
  by (rule ensures_ifthen)

lemma hit_loop_Some: "hit_loop inside es n = Some i \<Longrightarrow> i < n \<and> inside (es ! i)"
  by (induction n) (auto split: if_splits)

lemma chosen_range:
  "0 \<le> a \<Longrightarrow> a < int (length es) \<Longrightarrow>
   0 \<le> chosen inside es a \<and> chosen inside es a < int (length es)"
  by (auto simp: chosen_def split: option.splits dest: hit_loop_Some)

lemma only_active_refl: "(\<And>e. same e e) \<Longrightarrow> only_active same a es es"
  by (simp add: only_active_def)

lemma only_active_update:
  assumes "only_active same a es es'" and "0 \<le> a" and "same (es ! nat a) v"
  shows "only_active same a es (es'[nat a := v])"
  unfolding only_active_def
proof (intro conjI allI impI)
  show "length (es'[nat a := v]) = length es"
    using assms(1) by (simp add: only_active_def)
next
  fix i assume "i < length es" "int i \<noteq> a"
  then have "i \<noteq> nat a" using assms(2) by auto
  then show "es'[nat a := v] ! i = es ! i"
    using assms(1) \<open>i < length es\<close> \<open>int i \<noteq> a\<close> by (simp add: only_active_def)
next
  fix i assume i: "i < length es"
  show "same (es ! i) (es'[nat a := v] ! i)"
  proof (cases "i = nat a")
    case True
    then show ?thesis using assms(1,3) i by (simp add: only_active_def)
  next
    case False
    have "same (es ! i) (es' ! i)"
      using assms(1) i unfolding only_active_def by blast
    with False show ?thesis by simp
  qed
qed

lemma only_active_nth:
  "only_active same a es es' \<Longrightarrow> 0 \<le> a \<Longrightarrow> a < int (length es) \<Longrightarrow>
   same (es ! nat a) (es' ! nat a)"
  by (simp add: only_active_def)

lemma Sprite_same_MoveBy: "Sprite_same s s' \<Longrightarrow> Sprite_same s (Sprite_MoveBy dx dy s')"
  by (simp add: Sprite_same_def Sprite_MoveBy_same)

lemma basic_MoveActive_inv:
  "ensures (basic_inv g0 (basic_activeSprite g0)) (basic_MoveActive dx dy)
     (basic_inv g0 (basic_activeSprite g0))"
  unfolding ensures_def
proof (intro allI impI)
  fix g assume inv: "basic_inv g0 (basic_activeSprite g0) g"
  let ?a = "basic_activeSprite g0"
  let ?g' = "g\<lparr>basic_s := (basic_s g)[nat ?a := Sprite_MoveBy dx dy (basic_s g ! nat ?a)]\<rparr>"
  from inv have a: "0 \<le> ?a" "?a < int (length (basic_s g))" "basic_activeSprite g = ?a"
    and oa: "only_active Sprite_same ?a (basic_s g0) (basic_s g)"
    by (simp_all add: basic_inv_def basic_valid_def)
  from oa have len: "length (basic_s g) = length (basic_s g0)"
    by (simp add: only_active_def)
  have "Sprite_same (basic_s g0 ! nat ?a) (basic_s g ! nat ?a)"
    using only_active_nth [OF oa] a len by simp
  then have "only_active Sprite_same ?a (basic_s g0) (basic_s ?g')"
    using only_active_update [OF oa a(1)] by (simp add: Sprite_same_MoveBy)
  then have "basic_inv g0 ?a ?g'"
    using a by (simp add: basic_inv_def basic_valid_def)
  moreover have "basic_MoveActive dx dy g = Inr ?g'"
    using a by (simp add: basic_MoveActive_def modify_def)
  ultimately show "\<exists>g'. basic_MoveActive dx dy g = Inr g' \<and> basic_inv g0 ?a g'"
    by blast
qed

lemma basic_select_inv:
  "ensures (basic_inv g0 a) (basic_select c)
     (\<lambda>g. basic_inv g0 (chosen (\<lambda>s. Sprite_In s c) (basic_s g) a) g)"
  unfolding ensures_def
proof (intro allI impI)
  fix g assume inv: "basic_inv g0 a g"
  let ?n = "chosen (\<lambda>s. Sprite_In s c) (basic_s g) a"
  let ?g' = "g\<lparr>basic_activeSprite := ?n\<rparr>"
  from inv have a: "0 \<le> a" "a < int (length (basic_s g))" "basic_activeSprite g = a"
    by (simp_all add: basic_inv_def basic_valid_def)
  have eq: "basic_select c g = Inr ?g'"
    using a(3) by (simp add: basic_select_def chosen_def split: option.splits)
  have "basic_inv g0 ?n ?g'"
    using inv chosen_range [OF a(1,2)] by (simp add: basic_inv_def basic_valid_def)
  with eq show "\<exists>g'. basic_select c g = Inr g' \<and>
      basic_inv g0 (chosen (\<lambda>s. Sprite_In s c) (basic_s g') a) g'"
    by (intro exI [of _ ?g']) simp
qed

lemma Sprite_same_refl: "Sprite_same s s"
  by (simp add: Sprite_same_def)

lemma basic_inv_start: "basic_valid g \<Longrightarrow> basic_inv g (basic_activeSprite g) g"
  by (simp add: basic_inv_def only_active_refl Sprite_same_refl)

subsection \<open>basic-input\<close>

text \<open>The whole of \<open>Update\<close> from a state with the active index in range.\<close>

lemma basic_Update_spec:
  assumes "basic_valid g"
  shows "\<exists>g'. basic_Update inp g = Inr (g', escape inp) \<and>
     basic_inv g
       (if IsMouseButtonJustPressed inp MouseButtonLeft
        then chosen (\<lambda>s. Sprite_In s (CursorPosition inp)) (basic_s g') (basic_activeSprite g)
        else basic_activeSprite g) g'"
proof -
  let ?a = "basic_activeSprite g"
  let ?Q = "\<lambda>g'. basic_inv g
       (if IsMouseButtonJustPressed inp MouseButtonLeft
        then chosen (\<lambda>s. Sprite_In s (CursorPosition inp)) (basic_s g') ?a else ?a) g'"
  have "ensures (basic_inv g ?a)
     (seq [ ifthen (IsKeyPressed inp KeyUp) (basic_MoveActive 0 (- translateFactor)),
          ifthen (IsKeyPressed inp KeyDown) (basic_MoveActive 0 translateFactor),
          ifthen (IsKeyPressed inp KeyLeft) (basic_MoveActive (- translateFactor) 0),
          ifthen (IsKeyPressed inp KeyRight) (basic_MoveActive translateFactor 0),
          ifthen (IsMouseButtonJustPressed inp MouseButtonLeft)
            (basic_select (CursorPosition inp)) ]) ?Q"
    apply (rule ensures_seq_Cons [OF ensures_inv_ifthen [OF basic_MoveActive_inv]])+
    apply (rule ensures_seq_Cons [where R = ?Q])
     apply (rule ensures_ifthen)
      apply (simp add: basic_select_inv)
     apply simp
    apply (rule ensures_seq_Nil)
    apply assumption
    done
  from ensuresD [OF this basic_inv_start [OF assms]]
  show ?thesis
    by (auto simp: basic_Update_def)
qed

subsection \<open>polygon-making\<close>

lemma go_rem_next:
  assumes "0 \<le> a" "a < n" "n < 2 ^ 63"
  shows "go_rem (add64 a 1) n = (a + 1) mod n"
proof -
  have "add64 a 1 = a + 1"
    using assms by (simp add: add64_def wrap64_id is_int64_def)
  moreover have "sgn (a + 1) = 1" "\<bar>a + 1\<bar> = a + 1" "\<bar>n\<bar> = n"
    using assms by simp_all
  ultimately show ?thesis
    by (simp add: go_rem_def)
qed

text \<open>A method call on the active entity that keeps the fixed fields of the entity.\<close>

lemma polygon_modify_inv:
  assumes inv: "polygon_inv g0 (polygon_activePolygon g0) fs g"
    and f: "\<And>p. Polygon_same p (f p)"
  shows "\<exists>g'. (case modify (polygon_p g) (polygon_activePolygon g) f of
                 Inl e \<Rightarrow> Inl e | Inr ps \<Rightarrow> Inr (g\<lparr>polygon_p := ps\<rparr>)) = Inr g' \<and>
              polygon_inv g0 (polygon_activePolygon g0) fs g'"
proof -
  let ?a = "polygon_activePolygon g0"
  let ?g' = "g\<lparr>polygon_p := (polygon_p g)[nat ?a := f (polygon_p g ! nat ?a)]\<rparr>"
  from inv have a: "0 \<le> ?a" "?a < int (length (polygon_p g))" "polygon_activePolygon g = ?a"
    and oa: "only_active Polygon_same ?a (polygon_p g0) (polygon_p g)"
    by (simp_all add: polygon_inv_def polygon_valid_def)
  from oa have len: "length (polygon_p g) = length (polygon_p g0)"
    by (simp add: only_active_def)
  have "Polygon_same (polygon_p g0 ! nat ?a) (polygon_p g ! nat ?a)"
    using only_active_nth [OF oa] a len by simp
  moreover have "Polygon_same (polygon_p g ! nat ?a) (f (polygon_p g ! nat ?a))"
    by (rule f)
  ultimately have "Polygon_same (polygon_p g0 ! nat ?a) (f (polygon_p g ! nat ?a))"
    by (simp add: Polygon_same_def)
  then have "only_active Polygon_same ?a (polygon_p g0) (polygon_p ?g')"
    using only_active_update [OF oa a(1)] by simp
  then have "polygon_inv g0 ?a fs ?g'"
    using inv a by (simp add: polygon_inv_def polygon_valid_def)
  moreover have "(case modify (polygon_p g) (polygon_activePolygon g) f of
                 Inl e \<Rightarrow> Inl e | Inr ps \<Rightarrow> Inr (g\<lparr>polygon_p := ps\<rparr>)) = Inr ?g'"
    using a by (simp add: modify_def)
  ultimately show ?thesis by blast
qed

lemma polygon_move_step:
  "ensures (polygon_inv g0 (polygon_activePolygon g0) fs)
     (ifthen c (polygon_MoveActive dx dy)) (polygon_inv g0 (polygon_activePolygon g0) fs)"
proof (rule ensures_inv_ifthen)
  show "ensures (polygon_inv g0 (polygon_activePolygon g0) fs) (polygon_MoveActive dx dy)
     (polygon_inv g0 (polygon_activePolygon g0) fs)"
    unfolding ensures_def polygon_MoveActive_def
    by (intro allI impI polygon_modify_inv) (simp_all add: Polygon_same_def Polygon_MoveBy_same)
qed

lemma polygon_rotate_step:
  "ensures (polygon_inv g0 (polygon_activePolygon g0) fs)
     (ifthen c (polygon_RotateActive d)) (polygon_inv g0 (polygon_activePolygon g0) fs)"
proof (rule ensures_inv_ifthen)
  show "ensures (polygon_inv g0 (polygon_activePolygon g0) fs) (polygon_RotateActive d)
     (polygon_inv g0 (polygon_activePolygon g0) fs)"
    unfolding ensures_def polygon_RotateActive_def
    by (intro allI impI polygon_modify_inv) (simp_all add: Polygon_same_def)
qed

lemma polygon_next_step:
  "ensures (polygon_inv g0 a fs) (ifthen c polygon_next)
     (polygon_inv g0 (if c then (a + 1) mod int (length (polygon_p g0)) else a) fs)"
proof (rule ensures_ifthen)
  assume c
  show "ensures (polygon_inv g0 a fs) polygon_next
     (polygon_inv g0 (if c then (a + 1) mod int (length (polygon_p g0)) else a) fs)"
    unfolding ensures_def
  proof (intro allI impI)
    fix g assume inv: "polygon_inv g0 a fs g"
    let ?n = "int (length (polygon_p g))"
    from inv have a: "0 \<le> a" "a < ?n" "?n < 2 ^ 63" "polygon_activePolygon g = a"
      by (simp_all add: polygon_inv_def polygon_valid_def)
    from inv have len: "length (polygon_p g) = length (polygon_p g0)"
      by (simp add: polygon_inv_def only_active_def)
    have nxt: "go_rem (add64 a 1) ?n = (a + 1) mod ?n"
      using a by (intro go_rem_next)
    have "0 < ?n"
      using a(1,2) by linarith
    then have rng: "0 \<le> (a + 1) mod ?n" "(a + 1) mod ?n < ?n"
      by (rule pos_mod_sign, rule pos_mod_bound)
    let ?g' = "g\<lparr>polygon_activePolygon := (a + 1) mod ?n\<rparr>"
    have "polygon_next g = Inr ?g'"
      using a nxt by (auto simp: polygon_next_def)
    moreover have "polygon_inv g0 ((a + 1) mod ?n) fs ?g'"
      using inv rng by (simp add: polygon_inv_def polygon_valid_def)
    ultimately show "\<exists>g'. polygon_next g = Inr g' \<and>
        polygon_inv g0 (if c then (a + 1) mod int (length (polygon_p g0)) else a) fs g'"
      using \<open>c\<close> len by auto
  qed
next
  fix g assume "\<not> c" "polygon_inv g0 a fs g"
  then show "polygon_inv g0 (if c then (a + 1) mod int (length (polygon_p g0)) else a) fs g"
    by simp
qed

lemma polygon_toggle_step:
  "ensures (polygon_inv g0 a fs) (ifthen c polygon_toggle) (polygon_inv g0 a (fs \<noteq> c))"
  by (cases c)
     (auto simp: ensures_def ifthen_def polygon_toggle_def polygon_inv_def polygon_valid_def)

lemma polygon_select_step:
  "ensures (polygon_inv g0 a fs) (ifthen c (polygon_select cur))
     (\<lambda>g. polygon_inv g0 (if c then chosen (\<lambda>p. Polygon_In p cur) (polygon_p g) a else a) fs g)"
proof (rule ensures_ifthen)
  assume c
  show "ensures (polygon_inv g0 a fs) (polygon_select cur)
     (\<lambda>g. polygon_inv g0 (if c then chosen (\<lambda>p. Polygon_In p cur) (polygon_p g) a else a) fs g)"
    unfolding ensures_def
  proof (intro allI impI)
    fix g assume inv: "polygon_inv g0 a fs g"
    let ?n = "chosen (\<lambda>p. Polygon_In p cur) (polygon_p g) a"
    let ?g' = "g\<lparr>polygon_activePolygon := ?n\<rparr>"
    from inv have a: "0 \<le> a" "a < int (length (polygon_p g))" "polygon_activePolygon g = a"
      by (simp_all add: polygon_inv_def polygon_valid_def)
    have eq: "polygon_select cur g = Inr ?g'"
      using a(3) by (simp add: polygon_select_def chosen_def split: option.splits)
    have "polygon_inv g0 ?n fs ?g'"
      using inv chosen_range [OF a(1,2)] by (simp add: polygon_inv_def polygon_valid_def)
    with eq \<open>c\<close> show "\<exists>g'. polygon_select cur g = Inr g' \<and>
        polygon_inv g0 (if c then chosen (\<lambda>p. Polygon_In p cur) (polygon_p g') a else a) fs g'"
      by (intro exI [of _ ?g']) simp
  qed
next
  fix g assume "\<not> c" "polygon_inv g0 a fs g"
  then show "polygon_inv g0 (if c then chosen (\<lambda>p. Polygon_In p cur) (polygon_p g) a else a) fs g"
    by simp
qed

lemma polygon_inv_start:
  "polygon_valid g \<Longrightarrow> polygon_inv g (polygon_activePolygon g) (polygon_fullscreen g) g"
  by (simp add: polygon_inv_def only_active_refl Polygon_same_def)

lemma polygon_Update_spec:
  assumes "polygon_valid g"
  shows "\<exists>g'. polygon_Update inp g = Inr (g', escape inp) \<and>
     polygon_inv g (polygon_index_after inp g (polygon_p g'))
       (polygon_fullscreen g \<noteq> IsKeyJustPressed inp KeyF) g'"
proof -
  let ?Q = "\<lambda>g'. polygon_inv g (polygon_index_after inp g (polygon_p g'))
       (polygon_fullscreen g \<noteq> IsKeyJustPressed inp KeyF) g'"
  have "ensures (polygon_inv g (polygon_activePolygon g) (polygon_fullscreen g))
     (seq [ ifthen (IsKeyPressed inp KeyUp \<or> IsKeyPressed inp KeyW)
            (polygon_MoveActive 0 (- translateFactor)),
          ifthen (IsKeyPressed inp KeyDown \<or> IsKeyPressed inp KeyS)
            (polygon_MoveActive 0 translateFactor),
          ifthen (IsKeyPressed inp KeyLeft \<or> IsKeyPressed inp KeyA)
            (polygon_MoveActive (- translateFactor) 0),
          ifthen (IsKeyPressed inp KeyRight \<or> IsKeyPressed inp KeyD)
            (polygon_MoveActive translateFactor 0),
          ifthen (IsKeyPressed inp KeyQ) (polygon_RotateActive (- rotateFactor)),
          ifthen (IsKeyPressed inp KeyE) (polygon_RotateActive rotateFactor),
          ifthen (IsKeyJustPressed inp KeySpace) polygon_next,
          ifthen (IsKeyJustPressed inp KeyF) polygon_toggle,
          ifthen (IsMouseButtonJustPressed inp MouseButtonLeft)
            (polygon_select (CursorPosition inp)) ]) ?Q"
    apply (rule ensures_seq_Cons [OF polygon_move_step])+
    apply (rule ensures_seq_Cons [OF polygon_rotate_step])+
    apply (rule ensures_seq_Cons [OF polygon_next_step])
    apply (rule ensures_seq_Cons [OF polygon_toggle_step])
    apply (rule ensures_seq_Cons [OF polygon_select_step])
    apply (rule ensures_seq_Nil)
    apply (simp add: polygon_index_after_def Let_def)
    done
  from ensuresD [OF this polygon_inv_start [OF assms]]
  show ?thesis
    by (auto simp: polygon_Update_def)
qed

text \<open>A method call on the active entity that keeps the fixed fields of the entity.\<close>

subsection \<open>The shapes demo\<close>

lemma shapes_modify_inv:
  assumes inv: "shapes_inv g0 (shapes_activeShape g0) fs g"
    and f: "\<And>p. Shape_same p (f p)"
  shows "\<exists>g'. (case modify (shapes_s g) (shapes_activeShape g) f of
                 Inl e \<Rightarrow> Inl e | Inr ps \<Rightarrow> Inr (g\<lparr>shapes_s := ps\<rparr>)) = Inr g' \<and>
              shapes_inv g0 (shapes_activeShape g0) fs g'"
proof -
  let ?a = "shapes_activeShape g0"
  let ?g' = "g\<lparr>shapes_s := (shapes_s g)[nat ?a := f (shapes_s g ! nat ?a)]\<rparr>"
  from inv have a: "0 \<le> ?a" "?a < int (length (shapes_s g))" "shapes_activeShape g = ?a"
    and oa: "only_active Shape_same ?a (shapes_s g0) (shapes_s g)"
    by (simp_all add: shapes_inv_def shapes_valid_def)
  from oa have len: "length (shapes_s g) = length (shapes_s g0)"
    by (simp add: only_active_def)
  have "Shape_same (shapes_s g0 ! nat ?a) (shapes_s g ! nat ?a)"
    using only_active_nth [OF oa] a len by simp
  moreover have "Shape_same (shapes_s g ! nat ?a) (f (shapes_s g ! nat ?a))"
    by (rule f)
  ultimately have "Shape_same (shapes_s g0 ! nat ?a) (f (shapes_s g ! nat ?a))"
    by (simp add: Shape_same_def)
  then have "only_active Shape_same ?a (shapes_s g0) (shapes_s ?g')"
    using only_active_update [OF oa a(1)] by simp
  then have "shapes_inv g0 ?a fs ?g'"
    using inv a by (simp add: shapes_inv_def shapes_valid_def)
  moreover have "(case modify (shapes_s g) (shapes_activeShape g) f of
                 Inl e \<Rightarrow> Inl e | Inr ps \<Rightarrow> Inr (g\<lparr>shapes_s := ps\<rparr>)) = Inr ?g'"
    using a by (simp add: modify_def)
  ultimately show ?thesis by blast
qed

lemma shapes_move_step:
  "ensures (shapes_inv g0 (shapes_activeShape g0) fs)
     (ifthen c (shapes_MoveActive dx dy)) (shapes_inv g0 (shapes_activeShape g0) fs)"
proof (rule ensures_inv_ifthen)
  show "ensures (shapes_inv g0 (shapes_activeShape g0) fs) (shapes_MoveActive dx dy)
     (shapes_inv g0 (shapes_activeShape g0) fs)"
    unfolding ensures_def shapes_MoveActive_def
    by (intro allI impI shapes_modify_inv) (simp_all add: Shape_same_def Shape_MoveBy_same)
qed

lemma shapes_rotate_step:
  "ensures (shapes_inv g0 (shapes_activeShape g0) fs)
     (ifthen c (shapes_RotateActive d)) (shapes_inv g0 (shapes_activeShape g0) fs)"
proof (rule ensures_inv_ifthen)
  show "ensures (shapes_inv g0 (shapes_activeShape g0) fs) (shapes_RotateActive d)
     (shapes_inv g0 (shapes_activeShape g0) fs)"
    unfolding ensures_def shapes_RotateActive_def
    by (intro allI impI shapes_modify_inv) (simp_all add: Shape_same_def)
qed

lemma shapes_next_step:
  "ensures (shapes_inv g0 a fs) (ifthen c shapes_next)
     (shapes_inv g0 (if c then (a + 1) mod int (length (shapes_s g0)) else a) fs)"
proof (rule ensures_ifthen)
  assume c
  show "ensures (shapes_inv g0 a fs) shapes_next
     (shapes_inv g0 (if c then (a + 1) mod int (length (shapes_s g0)) else a) fs)"
    unfolding ensures_def
  proof (intro allI impI)
    fix g assume inv: "shapes_inv g0 a fs g"
    let ?n = "int (length (shapes_s g))"
    from inv have a: "0 \<le> a" "a < ?n" "?n < 2 ^ 63" "shapes_activeShape g = a"
      by (simp_all add: shapes_inv_def shapes_valid_def)
    from inv have len: "length (shapes_s g) = length (shapes_s g0)"
      by (simp add: shapes_inv_def only_active_def)
    have nxt: "go_rem (add64 a 1) ?n = (a + 1) mod ?n"
      using a by (intro go_rem_next)
    have "0 < ?n"
      using a(1,2) by linarith
    then have rng: "0 \<le> (a + 1) mod ?n" "(a + 1) mod ?n < ?n"
      by (rule pos_mod_sign, rule pos_mod_bound)
    let ?g' = "g\<lparr>shapes_activeShape := (a + 1) mod ?n\<rparr>"
    have "shapes_next g = Inr ?g'"
      using a nxt by (auto simp: shapes_next_def)
    moreover have "shapes_inv g0 ((a + 1) mod ?n) fs ?g'"
      using inv rng by (simp add: shapes_inv_def shapes_valid_def)
    ultimately show "\<exists>g'. shapes_next g = Inr g' \<and>
        shapes_inv g0 (if c then (a + 1) mod int (length (shapes_s g0)) else a) fs g'"
      using \<open>c\<close> len by auto
  qed
next
  fix g assume "\<not> c" "shapes_inv g0 a fs g"
  then show "shapes_inv g0 (if c then (a + 1) mod int (length (shapes_s g0)) else a) fs g"
    by simp
qed

lemma shapes_toggle_step:
  "ensures (shapes_inv g0 a fs) (ifthen c shapes_toggle) (shapes_inv g0 a (fs \<noteq> c))"
  by (cases c)
     (auto simp: ensures_def ifthen_def shapes_toggle_def shapes_inv_def shapes_valid_def)

lemma shapes_select_step:
  "ensures (shapes_inv g0 a fs) (ifthen c (shapes_select cur))
     (\<lambda>g. shapes_inv g0 (if c then chosen (\<lambda>p. Shape_In p cur) (shapes_s g) a else a) fs g)"
proof (rule ensures_ifthen)
  assume c
  show "ensures (shapes_inv g0 a fs) (shapes_select cur)
     (\<lambda>g. shapes_inv g0 (if c then chosen (\<lambda>p. Shape_In p cur) (shapes_s g) a else a) fs g)"
    unfolding ensures_def
  proof (intro allI impI)
    fix g assume inv: "shapes_inv g0 a fs g"
    let ?n = "chosen (\<lambda>p. Shape_In p cur) (shapes_s g) a"
    let ?g' = "g\<lparr>shapes_activeShape := ?n\<rparr>"
    from inv have a: "0 \<le> a" "a < int (length (shapes_s g))" "shapes_activeShape g = a"
      by (simp_all add: shapes_inv_def shapes_valid_def)
    have eq: "shapes_select cur g = Inr ?g'"
      using a(3) by (simp add: shapes_select_def chosen_def split: option.splits)
    have "shapes_inv g0 ?n fs ?g'"
      using inv chosen_range [OF a(1,2)] by (simp add: shapes_inv_def shapes_valid_def)
    with eq \<open>c\<close> show "\<exists>g'. shapes_select cur g = Inr g' \<and>
        shapes_inv g0 (if c then chosen (\<lambda>p. Shape_In p cur) (shapes_s g') a else a) fs g'"
      by (intro exI [of _ ?g']) simp
  qed
next
  fix g assume "\<not> c" "shapes_inv g0 a fs g"
  then show "shapes_inv g0 (if c then chosen (\<lambda>p. Shape_In p cur) (shapes_s g) a else a) fs g"
    by simp
qed

lemma shapes_inv_start:
  "shapes_valid g \<Longrightarrow> shapes_inv g (shapes_activeShape g) (shapes_fullscreen g) g"
  by (simp add: shapes_inv_def only_active_refl Shape_same_def)

lemma shapes_Update_spec:
  assumes "shapes_valid g"
  shows "\<exists>g'. shapes_Update inp g = Inr (g', escape inp) \<and>
     shapes_inv g (shapes_index_after inp g (shapes_s g'))
       (shapes_fullscreen g \<noteq> IsKeyJustPressed inp KeyF) g'"
proof -
  let ?Q = "\<lambda>g'. shapes_inv g (shapes_index_after inp g (shapes_s g'))
       (shapes_fullscreen g \<noteq> IsKeyJustPressed inp KeyF) g'"
  have "ensures (shapes_inv g (shapes_activeShape g) (shapes_fullscreen g))
     (seq [ ifthen (IsKeyPressed inp KeyUp \<or> IsKeyPressed inp KeyW)
            (shapes_MoveActive 0 (- translateFactor)),
          ifthen (IsKeyPressed inp KeyDown \<or> IsKeyPressed inp KeyS)
            (shapes_MoveActive 0 translateFactor),
          ifthen (IsKeyPressed inp KeyLeft \<or> IsKeyPressed inp KeyA)
            (shapes_MoveActive (- translateFactor) 0),
          ifthen (IsKeyPressed inp KeyRight \<or> IsKeyPressed inp KeyD)
            (shapes_MoveActive translateFactor 0),
          ifthen (IsKeyPressed inp KeyQ) (shapes_RotateActive (- rotateFactor)),
          ifthen (IsKeyPressed inp KeyE) (shapes_RotateActive rotateFactor),
          ifthen (IsKeyJustPressed inp KeySpace) shapes_next,
          ifthen (IsKeyJustPressed inp KeyF) shapes_toggle,
          ifthen (IsMouseButtonJustPressed inp MouseButtonLeft)
            (shapes_select (CursorPosition inp)) ]) ?Q"
    apply (rule ensures_seq_Cons [OF shapes_move_step])+
    apply (rule ensures_seq_Cons [OF shapes_rotate_step])+
    apply (rule ensures_seq_Cons [OF shapes_next_step])
    apply (rule ensures_seq_Cons [OF shapes_toggle_step])
    apply (rule ensures_seq_Cons [OF shapes_select_step])
    apply (rule ensures_seq_Nil)
    apply (simp add: shapes_index_after_def Let_def)
    done
  from ensuresD [OF this shapes_inv_start [OF assms]]
  show ?thesis
    by (auto simp: shapes_Update_def)
qed

subsection \<open>connect-lines\<close>

lemma lines_move_step:
  "ensures (lines_inv g0 (lines_selected g0) fs cs)
     (ifthen c (lines_MoveSelected dx dy)) (lines_inv g0 (lines_selected g0) fs cs)"
proof (rule ensures_inv_ifthen)
  show "ensures (lines_inv g0 (lines_selected g0) fs cs) (lines_MoveSelected dx dy)
     (lines_inv g0 (lines_selected g0) fs cs)"
    unfolding ensures_def
  proof (intro allI impI)
    fix g assume inv: "lines_inv g0 (lines_selected g0) fs cs g"
    let ?a = "lines_selected g0"
    let ?g' = "g\<lparr>lines_blocks := (lines_blocks g)[nat ?a := Block_Move dx dy (lines_blocks g ! nat ?a)]\<rparr>"
    from inv have a: "0 \<le> ?a" "?a < int (length (lines_blocks g))" "lines_selected g = ?a"
      and oa: "only_active Block_same ?a (lines_blocks g0) (lines_blocks g)"
      by (simp_all add: lines_inv_def lines_valid_def)
    from oa have len: "length (lines_blocks g) = length (lines_blocks g0)"
      by (simp add: only_active_def)
    have "Block_same (lines_blocks g0 ! nat ?a) (lines_blocks g ! nat ?a)"
      using only_active_nth [OF oa] a len by simp
    then have "Block_same (lines_blocks g0 ! nat ?a) (Block_Move dx dy (lines_blocks g ! nat ?a))"
      by (simp add: Block_same_def Block_Move_same)
    then have "only_active Block_same ?a (lines_blocks g0) (lines_blocks ?g')"
      using only_active_update [OF oa a(1)] by simp
    then have "lines_inv g0 ?a fs cs ?g'"
      using inv a by (auto simp: lines_inv_def lines_valid_def)
    moreover have "lines_MoveSelected dx dy g = Inr ?g'"
      using a by (simp add: lines_MoveSelected_def modify_def)
    ultimately show "\<exists>g'. lines_MoveSelected dx dy g = Inr g' \<and> lines_inv g0 ?a fs cs g'"
      by blast
  qed
qed

lemma lines_toggle_step:
  "ensures (lines_inv g0 a fs cs) (ifthen c lines_toggle) (lines_inv g0 a (fs \<noteq> c) cs)"
  by (cases c)
     (auto simp: ensures_def ifthen_def lines_toggle_def lines_inv_def lines_valid_def)

lemma lines_select_step:
  "ensures (lines_inv g0 a fs cs) (ifthen c (lines_select cur))
     (\<lambda>g. lines_inv g0 (if c then chosen (\<lambda>b. Block_In b cur) (lines_blocks g) a else a) fs cs g)"
proof (rule ensures_ifthen)
  assume c
  show "ensures (lines_inv g0 a fs cs) (lines_select cur)
     (\<lambda>g. lines_inv g0 (if c then chosen (\<lambda>b. Block_In b cur) (lines_blocks g) a else a) fs cs g)"
    unfolding ensures_def
  proof (intro allI impI)
    fix g assume inv: "lines_inv g0 a fs cs g"
    let ?n = "chosen (\<lambda>b. Block_In b cur) (lines_blocks g) a"
    let ?g' = "g\<lparr>lines_selected := ?n\<rparr>"
    from inv have a: "0 \<le> a" "a < int (length (lines_blocks g))" "lines_selected g = a"
      by (simp_all add: lines_inv_def lines_valid_def)
    have eq: "lines_select cur g = Inr ?g'"
      using a(3) by (simp add: lines_select_def chosen_def split: option.splits)
    have "lines_inv g0 ?n fs cs ?g'"
      using inv chosen_range [OF a(1,2)] by (auto simp: lines_inv_def lines_valid_def)
    with eq \<open>c\<close> show "\<exists>g'. lines_select cur g = Inr g' \<and>
        lines_inv g0 (if c then chosen (\<lambda>b. Block_In b cur) (lines_blocks g') a else a) fs cs g'"
      by (intro exI [of _ ?g']) simp
  qed
next
  fix g assume "\<not> c" "lines_inv g0 a fs cs g"
  then show "lines_inv g0 (if c then chosen (\<lambda>b. Block_In b cur) (lines_blocks g) a else a) fs cs g"
    by simp
qed

lemma linked_ok:
  assumes "0 \<le> a" "a < int (length bs)" "list_all (conn_ok (int (length bs))) cs"
  shows "list_all (conn_ok (int (length bs))) (linked cur bs a cs)"
  using assms
  by (auto simp: linked_def conn_ok_def split: option.splits dest: hit_loop_Some)

lemma lines_link_step:
  "ensures (\<lambda>g. lines_inv g0 (A (lines_blocks g)) fs cs g) (ifthen c (lines_link cur))
     (\<lambda>g. lines_inv g0 (A (lines_blocks g)) fs
        (if c then linked cur (lines_blocks g) (A (lines_blocks g)) cs else cs) g)"
proof (rule ensures_ifthen)
  assume c
  show "ensures (\<lambda>g. lines_inv g0 (A (lines_blocks g)) fs cs g) (lines_link cur)
     (\<lambda>g. lines_inv g0 (A (lines_blocks g)) fs
        (if c then linked cur (lines_blocks g) (A (lines_blocks g)) cs else cs) g)"
    unfolding ensures_def
  proof (intro allI impI)
    fix g assume inv: "lines_inv g0 (A (lines_blocks g)) fs cs g"
    let ?a = "A (lines_blocks g)"
    let ?cs = "linked cur (lines_blocks g) ?a cs"
    let ?g' = "g\<lparr>lines_connections := ?cs\<rparr>"
    from inv have a: "0 \<le> ?a" "?a < int (length (lines_blocks g))" "lines_selected g = ?a"
      "lines_connections g = cs"
      "list_all (conn_ok (int (length (lines_blocks g)))) cs"
      by (auto simp: lines_inv_def lines_valid_def)
    have eq: "lines_link cur g = Inr ?g'"
      using a(3,4) by (simp add: lines_link_def linked_def connect_def split: option.splits)
    have "lines_inv g0 ?a fs ?cs ?g'"
      using inv linked_ok [OF a(1,2,5)] by (auto simp: lines_inv_def lines_valid_def)
    with eq \<open>c\<close> show "\<exists>g'. lines_link cur g = Inr g' \<and>
        lines_inv g0 (A (lines_blocks g')) fs
          (if c then linked cur (lines_blocks g') (A (lines_blocks g')) cs else cs) g'"
      by (intro exI [of _ ?g']) simp
  qed
next
  fix g assume "\<not> c" "lines_inv g0 (A (lines_blocks g)) fs cs g"
  then show "lines_inv g0 (A (lines_blocks g)) fs
      (if c then linked cur (lines_blocks g) (A (lines_blocks g)) cs else cs) g"
    by simp
qed

lemma lines_inv_start:
  "lines_valid g \<Longrightarrow>
   lines_inv g (lines_selected g) (lines_fullscreen g) (lines_connections g) g"
  by (simp add: lines_inv_def only_active_refl Block_same_def)

lemma lines_Update_spec:
  assumes "lines_valid g"
  shows "\<exists>g'. lines_Update inp g = Inr (g', escape inp) \<and>
     lines_inv g (lines_index_after inp g (lines_blocks g'))
       (lines_fullscreen g \<noteq> IsKeyJustPressed inp KeyF)
       (lines_connections_after inp g (lines_blocks g')) g'"
proof -
  let ?Q = "\<lambda>g'. lines_inv g (lines_index_after inp g (lines_blocks g'))
       (lines_fullscreen g \<noteq> IsKeyJustPressed inp KeyF)
       (lines_connections_after inp g (lines_blocks g')) g'"
  have "ensures (lines_inv g (lines_selected g) (lines_fullscreen g) (lines_connections g))
     (seq [ ifthen (IsKeyPressed inp KeyUp \<or> IsKeyPressed inp KeyW)
            (lines_MoveSelected 0 (- translate)),
          ifthen (IsKeyPressed inp KeyDown \<or> IsKeyPressed inp KeyS)
            (lines_MoveSelected 0 translate),
          ifthen (IsKeyPressed inp KeyLeft \<or> IsKeyPressed inp KeyA)
            (lines_MoveSelected (- translate) 0),
          ifthen (IsKeyPressed inp KeyRight \<or> IsKeyPressed inp KeyD)
            (lines_MoveSelected translate 0),
          ifthen (IsKeyJustPressed inp KeyF) lines_toggle,
          ifthen (IsMouseButtonJustPressed inp MouseButtonLeft)
            (lines_select (CursorPosition inp)),
          ifthen (IsMouseButtonJustPressed inp MouseButtonRight)
            (lines_link (CursorPosition inp)) ]) ?Q"
    apply (rule ensures_seq_Cons [OF lines_move_step])+
    apply (rule ensures_seq_Cons [OF lines_toggle_step])
    apply (rule ensures_seq_Cons [OF lines_select_step])
    apply (rule ensures_seq_Cons [OF lines_link_step])
    apply (rule ensures_seq_Nil)
    apply (unfold lines_index_after_def lines_connections_after_def)
    apply assumption
    done
  from ensuresD [OF this lines_inv_start [OF assms]]
  show ?thesis
    by (auto simp: lines_Update_def)
qed

subsection \<open>starfield\<close>

lemma Star_same_moved:
  "list_all2 Star_same xs ys \<Longrightarrow> list_all2 Star_same xs (map (Star_MoveBy dx dy) ys)"
  by (simp add: list_all2_map2 Star_same_def [abs_def] Star_MoveBy_same)

lemma starfield_move_step:
  "ensures (starfield_inv g0 fs) (ifthen c (MoveView vx vy)) (starfield_inv g0 fs)"
  by (rule ensures_inv_ifthen)
     (simp add: ensures_def MoveView_def Let_def starfield_inv_def Star_same_moved)

lemma starfield_toggle_step:
  "ensures (starfield_inv g0 fs) (ifthen c starfield_toggle) (starfield_inv g0 (fs \<noteq> c))"
  by (cases c) (auto simp: ensures_def ifthen_def starfield_toggle_def starfield_inv_def)

lemma starfield_inv_start: "starfield_inv g (starfield_fullscreen g) g"
  by (simp add: starfield_inv_def Star_same_def list_all2_same)

lemma starfield_Update_spec:
  "\<exists>g'. starfield_Update inp g = Inr (g', escape inp) \<and>
     starfield_inv g (starfield_fullscreen g \<noteq> IsKeyJustPressed inp KeyF) g'"
proof -
  have "ensures (starfield_inv g (starfield_fullscreen g))
     (seq [ ifthen (IsKeyPressed inp KeyUp \<or> IsKeyPressed inp KeyW) (MoveView 0 (- 1)),
          ifthen (IsKeyPressed inp KeyDown \<or> IsKeyPressed inp KeyS) (MoveView 0 1),
          ifthen (IsKeyPressed inp KeyLeft \<or> IsKeyPressed inp KeyA) (MoveView (- 1) 0),
          ifthen (IsKeyPressed inp KeyRight \<or> IsKeyPressed inp KeyD) (MoveView 1 0),
          ifthen (IsKeyJustPressed inp KeyF) starfield_toggle ])
     (starfield_inv g (starfield_fullscreen g \<noteq> IsKeyJustPressed inp KeyF))"
    apply (rule ensures_seq_Cons [OF starfield_move_step])+
    apply (rule ensures_seq_Cons [OF starfield_toggle_step])
    apply (rule ensures_seq_Nil)
    apply assumption
    done
  from ensuresD [OF this starfield_inv_start]
  show ?thesis
    by (auto simp: starfield_Update_def)
qed

section \<open>Runs, the selection loop and Draw\<close>

text \<open>A property that every \<open>Update\<close> keeps holds after every run, and no run panics.\<close>

lemma RunGame_invariant:
  assumes step: "\<And>inp g. V g \<Longrightarrow> \<exists>g' e. upd inp g = Inr (g', e) \<and> V g'"
    and "V g"
  shows "\<exists>g' e. RunGame upd prev fs g = Inr (g', e) \<and> V g'"
  using \<open>V g\<close>
proof (induction fs arbitrary: prev g)
  case Nil
  then show ?case by simp
next
  case (Cons f fs)
  from step [OF Cons.prems, of "engine_input prev f"] obtain g1 e1
    where 1: "upd (engine_input prev f) g = Inr (g1, e1)" "V g1"
    by blast
  show ?case
  proof (cases e1)
    case None
    from Cons.IH [OF 1(2), of f] obtain g' e
      where "RunGame upd f fs g1 = Inr (g', e)" "V g'"
      by blast
    with 1 None show ?thesis by simp
  next
    case (Some x)
    with 1 show ?thesis by simp
  qed
qed

lemma hit_loop_None: "hit_loop inside es n = None \<longleftrightarrow> (\<forall>j<n. \<not> inside (es ! j))"
  by (induction n) (auto simp: less_Suc_eq)

lemma hit_loop_top:
  "hit_loop inside es n = Some i \<Longrightarrow> (\<forall>j. i < j \<and> j < n \<longrightarrow> \<not> inside (es ! j))"
  by (induction n) (auto simp: less_Suc_eq split: if_splits)

lemma hit_loop_Max:
  assumes "hit_loop inside es n = Some i"
  shows "i = Max {j. j < n \<and> inside (es ! j)}"
proof -
  let ?H = "{j. j < n \<and> inside (es ! j)}"
  have "Max ?H = i"
  proof (rule Max_eqI)
    show "finite ?H" by simp
  next
    fix j assume "j \<in> ?H"
    then show "j \<le> i"
      using hit_loop_top [OF assms] by (auto simp: not_less [symmetric])
  next
    show "i \<in> ?H"
      using hit_loop_Some [OF assms] by simp
  qed
  then show ?thesis by simp
qed

text \<open>
  The click of \<open>Update\<close> selects the largest index whose entity is hit, and leaves the
  index as it is when no entity is hit.
\<close>

lemma chosen_largest:
  "({j. j < length es \<and> inside (es ! j)} \<noteq> {} \<longrightarrow>
      chosen inside es a = int (Max {j. j < length es \<and> inside (es ! j)})) \<and>
   ({j. j < length es \<and> inside (es ! j)} = {} \<longrightarrow> chosen inside es a = a)"
proof (cases "hit_loop inside es (length es)")
  case None
  then have "{j. j < length es \<and> inside (es ! j)} = {}"
    by (auto simp: hit_loop_None)
  with None show ?thesis
    by (simp add: chosen_def)
next
  case (Some i)
  from hit_loop_Some [OF Some] have "i \<in> {j. j < length es \<and> inside (es ! j)}"
    by simp
  then have "{j. j < length es \<and> inside (es ! j)} \<noteq> {}"
    by blast
  moreover have "chosen inside es a = int (Max {j. j < length es \<and> inside (es ! j)})"
    using hit_loop_Max [OF Some] Some by (simp add: chosen_def)
  ultimately show ?thesis
    by blast
qed

lemma only_active_same:
  "only_active same a es es' \<Longrightarrow> list_all2 same es es'"
  by (simp add: only_active_def list_all2_conv_all_nth)

lemma basic_Draw_total: "basic_valid g \<Longrightarrow> \<exists>out. basic_Draw g = Inr out"
  by (simp add: basic_Draw_def index_def basic_valid_def)

lemma polygon_Draw_total: "polygon_valid g \<Longrightarrow> \<exists>out. polygon_Draw g = Inr out"
  by (simp add: polygon_Draw_def index_def polygon_valid_def)

lemma shapes_Draw_total: "shapes_valid g \<Longrightarrow> \<exists>out. shapes_Draw g = Inr out"
  by (simp add: shapes_Draw_def index_def shapes_valid_def)

lemma lines_DrawConnections_total:
  "list_all (conn_ok (int (length bs))) cs \<Longrightarrow> \<exists>ls. lines_DrawConnections bs cs = Inr ls"
  by (induction cs) (auto simp: index_def conn_ok_def)

lemma lines_Draw_total: "lines_valid g \<Longrightarrow> \<exists>out. lines_Draw g = Inr out"
  using lines_DrawConnections_total [of "lines_blocks g" "lines_connections g"]
  by (auto simp: lines_Draw_def index_def lines_valid_def)

section \<open>Properties of Update\<close>

lemma chosen_hits:
  "(hits inside es \<noteq> {} \<longrightarrow> chosen inside es a = int (Max (hits inside es))) \<and>
   (hits inside es = {} \<longrightarrow> chosen inside es a = a)"
  using chosen_largest [of es inside a] by (simp add: hits_def)

lemma linked_appends: "\<exists>new. linked cur bs a cs = cs @ new \<and> length new \<le> 1"
  by (auto simp: linked_def split: option.splits)

lemma basic_Update_valid:
  "basic_valid g \<Longrightarrow> \<exists>g' e. basic_Update inp g = Inr (g', e) \<and> basic_valid g'"
  using basic_Update_spec [of g inp] by (auto simp: basic_inv_def)

lemma polygon_Update_valid:
  "polygon_valid g \<Longrightarrow> \<exists>g' e. polygon_Update inp g = Inr (g', e) \<and> polygon_valid g'"
  using polygon_Update_spec [of g inp] by (auto simp: polygon_inv_def)

lemma shapes_Update_valid:
  "shapes_valid g \<Longrightarrow> \<exists>g' e. shapes_Update inp g = Inr (g', e) \<and> shapes_valid g'"
  using shapes_Update_spec [of g inp] by (auto simp: shapes_inv_def)

lemma lines_Update_valid:
  "lines_valid g \<Longrightarrow> \<exists>g' e. lines_Update inp g = Inr (g', e) \<and> lines_valid g'"
  using lines_Update_spec [of g inp] by (auto simp: lines_inv_def)

text \<open>
  Claim C9. In the four demos with an active index, from a state whose index is within
  the entity list, \<open>Update\<close> returns without a panic with the index again within the
  list, and so does every run of \<open>Update\<close> calls; \<open>Draw\<close> then reads the active entity
  (and, in connect-lines, the blocks of every connection) without a panic.
\<close>

theorem active_index_stays_in_range:
  "(basic_valid bg \<longrightarrow>
      (\<exists>g' e. basic_Update inp bg = Inr (g', e) \<and> basic_valid g' \<and>
               (\<exists>out. basic_Draw g' = Inr out)) \<and>
      (\<exists>g' e. RunGame basic_Update prev fs bg = Inr (g', e) \<and> basic_valid g' \<and>
               (\<exists>out. basic_Draw g' = Inr out))) \<and>
   (polygon_valid pg \<longrightarrow>
      (\<exists>g' e. polygon_Update inp pg = Inr (g', e) \<and> polygon_valid g' \<and>
               (\<exists>out. polygon_Draw g' = Inr out)) \<and>
      (\<exists>g' e. RunGame polygon_Update prev fs pg = Inr (g', e) \<and> polygon_valid g' \<and>
               (\<exists>out. polygon_Draw g' = Inr out))) \<and>
   (shapes_valid sg \<longrightarrow>
      (\<exists>g' e. shapes_Update inp sg = Inr (g', e) \<and> shapes_valid g' \<and>
               (\<exists>out. shapes_Draw g' = Inr out)) \<and>
      (\<exists>g' e. RunGame shapes_Update prev fs sg = Inr (g', e) \<and> shapes_valid g' \<and>
               (\<exists>out. shapes_Draw g' = Inr out))) \<and>
   (lines_valid lg \<longrightarrow>
      (\<exists>g' e. lines_Update inp lg = Inr (g', e) \<and> lines_valid g' \<and>
               (\<exists>out. lines_Draw g' = Inr out)) \<and>
      (\<exists>g' e. RunGame lines_Update prev fs lg = Inr (g', e) \<and> lines_valid g' \<and>
               (\<exists>out. lines_Draw g' = Inr out)))"
proof (intro conjI impI)
  assume v: "basic_valid bg"
  show "\<exists>g' e. basic_Update inp bg = Inr (g', e) \<and> basic_valid g' \<and>
               (\<exists>out. basic_Draw g' = Inr out)"
    using basic_Update_valid [OF v] basic_Draw_total by blast
  show "\<exists>g' e. RunGame basic_Update prev fs bg = Inr (g', e) \<and> basic_valid g' \<and>
               (\<exists>out. basic_Draw g' = Inr out)"
    using RunGame_invariant [of basic_valid basic_Update, OF basic_Update_valid v]
      basic_Draw_total by blast
next
  assume v: "polygon_valid pg"
  show "\<exists>g' e. polygon_Update inp pg = Inr (g', e) \<and> polygon_valid g' \<and>
               (\<exists>out. polygon_Draw g' = Inr out)"
    using polygon_Update_valid [OF v] polygon_Draw_total by blast
  show "\<exists>g' e. RunGame polygon_Update prev fs pg = Inr (g', e) \<and> polygon_valid g' \<and>
               (\<exists>out. polygon_Draw g' = Inr out)"
    using RunGame_invariant [of polygon_valid polygon_Update, OF polygon_Update_valid v]
      polygon_Draw_total by blast
next
  assume v: "shapes_valid sg"
  show "\<exists>g' e. shapes_Update inp sg = Inr (g', e) \<and> shapes_valid g' \<and>
               (\<exists>out. shapes_Draw g' = Inr out)"
    using shapes_Update_valid [OF v] shapes_Draw_total by blast
  show "\<exists>g' e. RunGame shapes_Update prev fs sg = Inr (g', e) \<and> shapes_valid g' \<and>
               (\<exists>out. shapes_Draw g' = Inr out)"
    using RunGame_invariant [of shapes_valid shapes_Update, OF shapes_Update_valid v]
      shapes_Draw_total by blast
next
  assume v: "lines_valid lg"
  show "\<exists>g' e. lines_Update inp lg = Inr (g', e) \<and> lines_valid g' \<and>
               (\<exists>out. lines_Draw g' = Inr out)"
    using lines_Update_valid [OF v] lines_Draw_total by blast
  show "\<exists>g' e. RunGame lines_Update prev fs lg = Inr (g', e) \<and> lines_valid g' \<and>
               (\<exists>out. lines_Draw g' = Inr out)"
    using RunGame_invariant [of lines_valid lines_Update, OF lines_Update_valid v]
      lines_Draw_total by blast
qed

lemma start_states_valid:
  "basic_valid basic_start" "polygon_valid polygon_start" "shapes_valid shapes_start"
  "lines_valid lines_start"
  by (simp_all add: basic_valid_def basic_start_def polygon_valid_def polygon_start_def
      shapes_valid_def shapes_start_def lines_valid_def lines_start_def)

theorem active_index_stays_in_range_witness:
  "basic_valid basic_start \<and> polygon_valid polygon_start \<and> shapes_valid shapes_start \<and>
   lines_valid lines_start \<and>
   (\<exists>g' e. basic_Update (engine_input idle (pressing KeyUp)) basic_start = Inr (g', e) \<and>
      basic_valid g' \<and> (\<exists>out. basic_Draw g' = Inr out)) \<and>
   (\<exists>g' e. polygon_Update (engine_input idle (pressing KeySpace)) polygon_start = Inr (g', e) \<and>
      polygon_valid g' \<and> (\<exists>out. polygon_Draw g' = Inr out)) \<and>
   (\<exists>g' e. shapes_Update (engine_input idle (pressing KeySpace)) shapes_start = Inr (g', e) \<and>
      shapes_valid g' \<and> (\<exists>out. shapes_Draw g' = Inr out)) \<and>
   (\<exists>g' e. RunGame lines_Update idle
        [clicking MouseButtonLeft (101, 101), idle, clicking MouseButtonRight (11, 11)]
        lines_start = Inr (g', e) \<and>
      lines_valid g' \<and> (\<exists>out. lines_Draw g' = Inr out))"
  using start_states_valid
    active_index_stays_in_range
      [of basic_start "engine_input idle (pressing KeyUp)" idle "[]" polygon_start
          shapes_start lines_start]
    active_index_stays_in_range
      [of basic_start "engine_input idle (pressing KeySpace)" idle
          "[clicking MouseButtonLeft (101, 101), idle, clicking MouseButtonRight (11, 11)]"
          polygon_start shapes_start lines_start]
  by blast

text \<open>
  Claim C5, as amended. In basic-input, polygon-making, the shapes demo and
  connect-lines, one \<open>Update\<close> changes no entity but the one at the index that is active
  when \<open>Update\<close> starts, and of that one no fixed field (id, size, bitmap). In starfield
  \<open>Update\<close> moves every star of both layers and changes no star's radius or bitmap.
\<close>

theorem Update_mutates_only_active:
  "(basic_valid bg \<longrightarrow>
      (\<exists>g' e. basic_Update inp bg = Inr (g', e) \<and>
         only_active Sprite_same (basic_activeSprite bg) (basic_s bg) (basic_s g'))) \<and>
   (polygon_valid pg \<longrightarrow>
      (\<exists>g' e. polygon_Update inp pg = Inr (g', e) \<and>
         only_active Polygon_same (polygon_activePolygon pg) (polygon_p pg) (polygon_p g'))) \<and>
   (shapes_valid sg \<longrightarrow>
      (\<exists>g' e. shapes_Update inp sg = Inr (g', e) \<and>
         only_active Shape_same (shapes_activeShape sg) (shapes_s sg) (shapes_s g'))) \<and>
   (lines_valid lg \<longrightarrow>
      (\<exists>g' e. lines_Update inp lg = Inr (g', e) \<and>
         only_active Block_same (lines_selected lg) (lines_blocks lg) (lines_blocks g'))) \<and>
   (\<exists>g' e. starfield_Update inp fg = Inr (g', e) \<and>
      list_all2 Star_same (starfield_nearStars fg) (starfield_nearStars g') \<and>
      list_all2 Star_same (starfield_farStars fg) (starfield_farStars g'))"
  using basic_Update_spec [of bg inp] polygon_Update_spec [of pg inp]
    shapes_Update_spec [of sg inp] lines_Update_spec [of lg inp]
    starfield_Update_spec [of inp fg]
  unfolding basic_inv_def polygon_inv_def shapes_inv_def lines_inv_def starfield_inv_def
  by blast

theorem Update_mutates_only_active_witness:
  "basic_valid basic_start \<and> polygon_valid polygon_start \<and> shapes_valid shapes_start \<and>
   lines_valid lines_start \<and>
   (\<exists>g' e. basic_Update (engine_input idle (pressing KeyDown)) basic_start = Inr (g', e) \<and>
      only_active Sprite_same (basic_activeSprite basic_start) (basic_s basic_start)
        (basic_s g')) \<and>
   (\<exists>g' e. polygon_Update (engine_input idle (pressing KeyDown)) polygon_start = Inr (g', e) \<and>
      only_active Polygon_same (polygon_activePolygon polygon_start) (polygon_p polygon_start)
        (polygon_p g')) \<and>
   (\<exists>g' e. shapes_Update (engine_input idle (pressing KeyDown)) shapes_start = Inr (g', e) \<and>
      only_active Shape_same (shapes_activeShape shapes_start) (shapes_s shapes_start)
        (shapes_s g')) \<and>
   (\<exists>g' e. lines_Update (engine_input idle (pressing KeyDown)) lines_start = Inr (g', e) \<and>
      only_active Block_same (lines_selected lines_start) (lines_blocks lines_start)
        (lines_blocks g'))"
  using start_states_valid
    Update_mutates_only_active
      [of basic_start "engine_input idle (pressing KeyDown)" polygon_start shapes_start
          lines_start starfield_start]
  by blast

text \<open>
  In starfield, one \<open>Update\<close> with the right arrow down moves all three stars: the near
  ones by 3, the far one by 1.
\<close>

theorem starfield_Update_moves_every_star:
  "starfield_Update (engine_input idle (pressing KeyRight)) starfield_start =
     Inr (\<lparr> starfield_fullscreen = False,
            starfield_nearStars =
              [ \<lparr> Star_x = 13, Star_y = 20, Star_radius = 3, Star_img = solid 6 6 \<rparr>,
                \<lparr> Star_x = 303, Star_y = 40, Star_radius = 3, Star_img = solid 6 6 \<rparr> ],
            starfield_farStars =
              [ \<lparr> Star_x = 201, Star_y = 100, Star_radius = 3, Star_img = solid 6 6 \<rparr> ] \<rparr>,
          None)"
  by (simp add: starfield_Update_def starfield_start_def engine_input_def idle_def pressing_def
      ifthen_def MoveView_def Star_MoveBy_def Let_def escape_def mul64_def add64_def wrap64_def
      translateNear_def translateFar_def screenWidth_def screenHeight_def)

text \<open>
  Claim C8. In a frame with a left mouse button press, \<open>Update\<close> sets the active index
  to the largest index whose entity contains the cursor position, the entities taken
  where \<open>Update\<close> leaves them (the key moves of the frame come before the click). When
  no entity contains the position the click leaves the index as it is: as it was before
  \<open>Update\<close> in basic-input and connect-lines, and as the space key of the same frame
  left it in polygon-making and the shapes demo.
\<close>

theorem click_selects_topmost:
  "(basic_valid bg \<and> IsMouseButtonJustPressed inp MouseButtonLeft \<longrightarrow>
      (\<exists>g' e. basic_Update inp bg = Inr (g', e) \<and>
         (hits (\<lambda>s. Sprite_In s (CursorPosition inp)) (basic_s g') \<noteq> {} \<longrightarrow>
            basic_activeSprite g' =
              int (Max (hits (\<lambda>s. Sprite_In s (CursorPosition inp)) (basic_s g')))) \<and>
         (hits (\<lambda>s. Sprite_In s (CursorPosition inp)) (basic_s g') = {} \<longrightarrow>
            basic_activeSprite g' = basic_activeSprite bg))) \<and>
   (lines_valid lg \<and> IsMouseButtonJustPressed inp MouseButtonLeft \<longrightarrow>
      (\<exists>g' e. lines_Update inp lg = Inr (g', e) \<and>
         (hits (\<lambda>b. Block_In b (CursorPosition inp)) (lines_blocks g') \<noteq> {} \<longrightarrow>
            lines_selected g' =
              int (Max (hits (\<lambda>b. Block_In b (CursorPosition inp)) (lines_blocks g')))) \<and>
         (hits (\<lambda>b. Block_In b (CursorPosition inp)) (lines_blocks g') = {} \<longrightarrow>
            lines_selected g' = lines_selected lg))) \<and>
   (polygon_valid pg \<and> IsMouseButtonJustPressed inp MouseButtonLeft \<longrightarrow>
      (\<exists>g' e. polygon_Update inp pg = Inr (g', e) \<and>
         (hits (\<lambda>p. Polygon_In p (CursorPosition inp)) (polygon_p g') \<noteq> {} \<longrightarrow>
            polygon_activePolygon g' =
              int (Max (hits (\<lambda>p. Polygon_In p (CursorPosition inp)) (polygon_p g')))) \<and>
         (hits (\<lambda>p. Polygon_In p (CursorPosition inp)) (polygon_p g') = {} \<longrightarrow>
            polygon_activePolygon g' =
              (if IsKeyJustPressed inp KeySpace
               then (polygon_activePolygon pg + 1) mod int (length (polygon_p pg))
               else polygon_activePolygon pg)))) \<and>
   (shapes_valid sg \<and> IsMouseButtonJustPressed inp MouseButtonLeft \<longrightarrow>
      (\<exists>g' e. shapes_Update inp sg = Inr (g', e) \<and>
         (hits (\<lambda>s. Shape_In s (CursorPosition inp)) (shapes_s g') \<noteq> {} \<longrightarrow>
            shapes_activeShape g' =
              int (Max (hits (\<lambda>s. Shape_In s (CursorPosition inp)) (shapes_s g')))) \<and>
         (hits (\<lambda>s. Shape_In s (CursorPosition inp)) (shapes_s g') = {} \<longrightarrow>
            shapes_activeShape g' =
              (if IsKeyJustPressed inp KeySpace
               then (shapes_activeShape sg + 1) mod int (length (shapes_s sg))
               else shapes_activeShape sg))))"
proof (intro conjI impI)
  assume "basic_valid bg \<and> IsMouseButtonJustPressed inp MouseButtonLeft"
  then have v: "basic_valid bg" and c: "IsMouseButtonJustPressed inp MouseButtonLeft"
    by simp_all
  from basic_Update_spec [OF v, of inp] c obtain g' where
    u: "basic_Update inp bg = Inr (g', escape inp)" and
    a: "basic_activeSprite g' =
          chosen (\<lambda>s. Sprite_In s (CursorPosition inp)) (basic_s g') (basic_activeSprite bg)"
    by (auto simp: basic_inv_def)
  show "\<exists>g' e. basic_Update inp bg = Inr (g', e) \<and>
         (hits (\<lambda>s. Sprite_In s (CursorPosition inp)) (basic_s g') \<noteq> {} \<longrightarrow>
            basic_activeSprite g' =
              int (Max (hits (\<lambda>s. Sprite_In s (CursorPosition inp)) (basic_s g')))) \<and>
         (hits (\<lambda>s. Sprite_In s (CursorPosition inp)) (basic_s g') = {} \<longrightarrow>
            basic_activeSprite g' = basic_activeSprite bg)"
    using u a
      chosen_hits [of "\<lambda>s. Sprite_In s (CursorPosition inp)" "basic_s g'" "basic_activeSprite bg"]
    by (intro exI [of _ g'] exI [of _ "escape inp"]) simp
next
  assume "lines_valid lg \<and> IsMouseButtonJustPressed inp MouseButtonLeft"
  then have v: "lines_valid lg" and c: "IsMouseButtonJustPressed inp MouseButtonLeft"
    by simp_all
  from lines_Update_spec [OF v, of inp] c obtain g' where
    u: "lines_Update inp lg = Inr (g', escape inp)" and
    a: "lines_selected g' =
          chosen (\<lambda>b. Block_In b (CursorPosition inp)) (lines_blocks g') (lines_selected lg)"
    by (auto simp: lines_inv_def lines_index_after_def)
  show "\<exists>g' e. lines_Update inp lg = Inr (g', e) \<and>
         (hits (\<lambda>b. Block_In b (CursorPosition inp)) (lines_blocks g') \<noteq> {} \<longrightarrow>
            lines_selected g' =
              int (Max (hits (\<lambda>b. Block_In b (CursorPosition inp)) (lines_blocks g')))) \<and>
         (hits (\<lambda>b. Block_In b (CursorPosition inp)) (lines_blocks g') = {} \<longrightarrow>
            lines_selected g' = lines_selected lg)"
    using u a
      chosen_hits [of "\<lambda>b. Block_In b (CursorPosition inp)" "lines_blocks g'" "lines_selected lg"]
    by (intro exI [of _ g'] exI [of _ "escape inp"]) simp
next
  assume "polygon_valid pg \<and> IsMouseButtonJustPressed inp MouseButtonLeft"
  then have v: "polygon_valid pg" and c: "IsMouseButtonJustPressed inp MouseButtonLeft"
    by simp_all
  let ?a7 = "if IsKeyJustPressed inp KeySpace
               then (polygon_activePolygon pg + 1) mod int (length (polygon_p pg))
               else polygon_activePolygon pg"
  from polygon_Update_spec [OF v, of inp] c obtain g' where
    u: "polygon_Update inp pg = Inr (g', escape inp)" and
    a: "polygon_activePolygon g' =
          chosen (\<lambda>p. Polygon_In p (CursorPosition inp)) (polygon_p g') ?a7"
    by (auto simp: polygon_inv_def polygon_index_after_def Let_def)
  show "\<exists>g' e. polygon_Update inp pg = Inr (g', e) \<and>
         (hits (\<lambda>p. Polygon_In p (CursorPosition inp)) (polygon_p g') \<noteq> {} \<longrightarrow>
            polygon_activePolygon g' =
              int (Max (hits (\<lambda>p. Polygon_In p (CursorPosition inp)) (polygon_p g')))) \<and>
         (hits (\<lambda>p. Polygon_In p (CursorPosition inp)) (polygon_p g') = {} \<longrightarrow>
            polygon_activePolygon g' = ?a7)"
    using u a
      chosen_hits [of "\<lambda>p. Polygon_In p (CursorPosition inp)" "polygon_p g'" ?a7]
    by (intro exI [of _ g'] exI [of _ "escape inp"]) simp
next
  assume "shapes_valid sg \<and> IsMouseButtonJustPressed inp MouseButtonLeft"
  then have v: "shapes_valid sg" and c: "IsMouseButtonJustPressed inp MouseButtonLeft"
    by simp_all
  let ?a7 = "if IsKeyJustPressed inp KeySpace
               then (shapes_activeShape sg + 1) mod int (length (shapes_s sg))
               else shapes_activeShape sg"
  from shapes_Update_spec [OF v, of inp] c obtain g' where
    u: "shapes_Update inp sg = Inr (g', escape inp)" and
    a: "shapes_activeShape g' =
          chosen (\<lambda>s. Shape_In s (CursorPosition inp)) (shapes_s g') ?a7"
    by (auto simp: shapes_inv_def shapes_index_after_def Let_def)
  show "\<exists>g' e. shapes_Update inp sg = Inr (g', e) \<and>
         (hits (\<lambda>s. Shape_In s (CursorPosition inp)) (shapes_s g') \<noteq> {} \<longrightarrow>
            shapes_activeShape g' =
              int (Max (hits (\<lambda>s. Shape_In s (CursorPosition inp)) (shapes_s g')))) \<and>
         (hits (\<lambda>s. Shape_In s (CursorPosition inp)) (shapes_s g') = {} \<longrightarrow>
            shapes_activeShape g' = ?a7)"
    using u a
      chosen_hits [of "\<lambda>s. Shape_In s (CursorPosition inp)" "shapes_s g'" ?a7]
    by (intro exI [of _ g'] exI [of _ "escape inp"]) simp
qed

lemma basic_click_example:
  "basic_Update (engine_input idle (clicking MouseButtonLeft (110, 110))) basic_start =
     Inr (basic_start\<lparr>basic_activeSprite := 1\<rparr>, None)"
  by (simp add: basic_Update_def basic_start_def engine_input_def idle_def clicking_def
      ifthen_def basic_select_def Sprite_In_def At_A_def solid_def sub64_def wrap64_def
      escape_def)

theorem click_selects_topmost_witness:
  "basic_valid basic_start \<and> lines_valid lines_start \<and> polygon_valid polygon_start \<and>
   shapes_valid shapes_start \<and>
   IsMouseButtonJustPressed (engine_input idle (clicking MouseButtonLeft (110, 110)))
     MouseButtonLeft \<and>
   (\<exists>g' e. basic_Update (engine_input idle (clicking MouseButtonLeft (110, 110))) basic_start =
        Inr (g', e) \<and>
      hits (\<lambda>s. Sprite_In s (110, 110)) (basic_s g') \<noteq> {} \<and>
      basic_activeSprite g' = int (Max (hits (\<lambda>s. Sprite_In s (110, 110)) (basic_s g'))) \<and>
      basic_activeSprite g' = 1)"
proof -
  let ?inp = "engine_input idle (clicking MouseButtonLeft (110, 110))"
  have c: "IsMouseButtonJustPressed ?inp MouseButtonLeft" "CursorPosition ?inp = (110, 110)"
    by (simp_all add: engine_input_def idle_def clicking_def)
  have "1 \<in> hits (\<lambda>s. Sprite_In s (110, 110)) (basic_s (basic_start\<lparr>basic_activeSprite := 1\<rparr>))"
    by (simp add: hits_def basic_start_def Sprite_In_def At_A_def solid_def sub64_def
        wrap64_def)
  then have h: "hits (\<lambda>s. Sprite_In s (110, 110)) (basic_s (basic_start\<lparr>basic_activeSprite := 1\<rparr>)) \<noteq> {}"
    by blast
  from click_selects_topmost [of basic_start ?inp lines_start polygon_start shapes_start]
    start_states_valid c basic_click_example h
  show ?thesis
    by auto
qed

text \<open>
  Claim C10. From a state of connect-lines whose selected index is within the blocks and
  whose connections join distinct indices within the blocks (the start state has no
  connection), one \<open>Update\<close> appends at most one connection, and after it, and after
  every run, every connection joins two distinct indices within the blocks.
\<close>

theorem connections_join_distinct_blocks:
  "lines_valid lg \<longrightarrow>
     (\<exists>g' e. lines_Update inp lg = Inr (g', e) \<and>
        list_all (conn_ok (int (length (lines_blocks g')))) (lines_connections g') \<and>
        (\<exists>new. lines_connections g' = lines_connections lg @ new \<and> length new \<le> 1)) \<and>
     (\<exists>g' e. RunGame lines_Update prev fs lg = Inr (g', e) \<and>
        list_all (conn_ok (int (length (lines_blocks g')))) (lines_connections g'))"
proof (intro impI conjI)
  assume v: "lines_valid lg"
  from lines_Update_spec [OF v, of inp] obtain g' where
    u: "lines_Update inp lg = Inr (g', escape inp)" and
    i: "lines_inv lg (lines_index_after inp lg (lines_blocks g'))
          (lines_fullscreen lg \<noteq> IsKeyJustPressed inp KeyF)
          (lines_connections_after inp lg (lines_blocks g')) g'"
    by blast
  from i have ok: "list_all (conn_ok (int (length (lines_blocks g')))) (lines_connections g')"
    and cs: "lines_connections g' = lines_connections_after inp lg (lines_blocks g')"
    unfolding lines_inv_def lines_valid_def by blast+
  have "\<exists>new. lines_connections_after inp lg (lines_blocks g') = lines_connections lg @ new \<and>
      length new \<le> 1"
    using linked_appends
      [of "CursorPosition inp" "lines_blocks g'" "lines_index_after inp lg (lines_blocks g')"
          "lines_connections lg"]
    by (simp add: lines_connections_after_def)
  with u ok cs show "\<exists>g' e. lines_Update inp lg = Inr (g', e) \<and>
        list_all (conn_ok (int (length (lines_blocks g')))) (lines_connections g') \<and>
        (\<exists>new. lines_connections g' = lines_connections lg @ new \<and> length new \<le> 1)"
    by (intro exI [of _ g'] exI [of _ "escape inp"]) simp
  from RunGame_invariant [of lines_valid lines_Update, OF lines_Update_valid v, of prev fs]
  show "\<exists>g' e. RunGame lines_Update prev fs lg = Inr (g', e) \<and>
        list_all (conn_ok (int (length (lines_blocks g')))) (lines_connections g')"
    by (auto simp: lines_valid_def)
qed

text \<open>
  A run of connect-lines: a left click on block 1, a frame with nothing down, a right
  click on block 0.
\<close>

lemma lines_run_example:
  "RunGame lines_Update idle
     [clicking MouseButtonLeft (101, 101), idle, clicking MouseButtonRight (11, 11)]
     lines_start =
   Inr (lines_start\<lparr>lines_connections := [\<lparr>blk1 = 1, blk2 = 0\<rparr>], lines_selected := 1\<rparr>, None)"
  by (simp add: lines_Update_def lines_start_def engine_input_def idle_def clicking_def
      ifthen_def lines_select_def lines_link_def connect_def Block_In_def add64_def wrap64_def
      escape_def)

theorem connections_join_distinct_blocks_witness:
  "lines_valid lines_start \<and>
   (\<exists>g' e. RunGame lines_Update idle
        [clicking MouseButtonLeft (101, 101), idle, clicking MouseButtonRight (11, 11)]
        lines_start = Inr (g', e) \<and>
      lines_connections g' = [\<lparr>blk1 = 1, blk2 = 0\<rparr>] \<and>
      list_all (conn_ok (int (length (lines_blocks g')))) (lines_connections g'))"
  using start_states_valid(4) lines_run_example
    connections_join_distinct_blocks
      [of lines_start "engine_input idle idle" idle
          "[clicking MouseButtonLeft (101, 101), idle, clicking MouseButtonRight (11, 11)]"]
  by auto

text \<open>
  Claim C4, as amended. In basic-input, polygon-making, the shapes demo, connect-lines
  (from a state with the active index in range) and starfield, \<open>Update\<close> returns the
  sentinel \<open>ErrCleanExit\<close> when the Escape key is down and \<open>nil\<close> otherwise; their
  \<open>main\<close> prints the farewell and exits with status 0 on the sentinel, and exits with
  status 1 on any other error. The turns demo has no sentinel: its \<open>Update\<close> always
  returns \<open>nil\<close>, and its \<open>main\<close> treats every error as fatal.
\<close>

theorem Update_returns_clean_exit:
  "(basic_valid bg \<longrightarrow>
      (\<exists>g'. basic_Update inp bg =
         Inr (g', if IsKeyPressed inp KeyEscape then Some ErrCleanExit else None))) \<and>
   (polygon_valid pg \<longrightarrow>
      (\<exists>g'. polygon_Update inp pg =
         Inr (g', if IsKeyPressed inp KeyEscape then Some ErrCleanExit else None))) \<and>
   (shapes_valid sg \<longrightarrow>
      (\<exists>g'. shapes_Update inp sg =
         Inr (g', if IsKeyPressed inp KeyEscape then Some ErrCleanExit else None))) \<and>
   (lines_valid lg \<longrightarrow>
      (\<exists>g'. lines_Update inp lg =
         Inr (g', if IsKeyPressed inp KeyEscape then Some ErrCleanExit else None))) \<and>
   (\<exists>g'. starfield_Update inp fg =
      Inr (g', if IsKeyPressed inp KeyEscape then Some ErrCleanExit else None)) \<and>
   (\<exists>g'. turns_Update inp tg = Inr (g', None)) \<and>
   main_exit (Some ErrCleanExit) = ([''Good bye!''], 0) \<and>
   main_exit None = ([], 0) \<and>
   main_exit (Some (EngineError m)) = ([], 1) \<and>
   turns_main_exit (Some er) = ([], 1)"
  using basic_Update_spec [of bg inp] polygon_Update_spec [of pg inp]
    shapes_Update_spec [of sg inp] lines_Update_spec [of lg inp]
    starfield_Update_spec [of inp fg] turns_Update_total [of inp tg]
  by (auto simp: escape_def main_exit_def turns_main_exit_def)

theorem Update_returns_clean_exit_witness:
  "basic_valid basic_start \<and> polygon_valid polygon_start \<and> shapes_valid shapes_start \<and>
   lines_valid lines_start \<and>
   IsKeyPressed (engine_input idle (pressing KeyEscape)) KeyEscape \<and>
   (\<exists>g'. basic_Update (engine_input idle (pressing KeyEscape)) basic_start =
      Inr (g', Some ErrCleanExit)) \<and>
   (\<exists>g'. polygon_Update (engine_input idle (pressing KeyEscape)) polygon_start =
      Inr (g', Some ErrCleanExit)) \<and>
   (\<exists>g'. shapes_Update (engine_input idle (pressing KeyEscape)) shapes_start =
      Inr (g', Some ErrCleanExit)) \<and>
   (\<exists>g'. lines_Update (engine_input idle (pressing KeyEscape)) lines_start =
      Inr (g', Some ErrCleanExit)) \<and>
   (\<exists>g'. starfield_Update (engine_input idle (pressing KeyEscape)) starfield_start =
      Inr (g', Some ErrCleanExit)) \<and>
   main_exit (Some ErrCleanExit) = ([''Good bye!''], 0)"
proof -
  have "IsKeyPressed (engine_input idle (pressing KeyEscape)) KeyEscape"
    by (simp add: engine_input_def pressing_def)
  with start_states_valid
    Update_returns_clean_exit
      [of basic_start "engine_input idle (pressing KeyEscape)" polygon_start shapes_start
          lines_start starfield_start "\<lparr>turns_turn = 0\<rparr>" "''x''" ErrCleanExit]
  show ?thesis
    by simp
qed

text \<open>The Escape key is down, and the \<open>Update\<close> of turns returns \<open>nil\<close>.\<close>

theorem turns_Update_ignores_escape:
  "IsKeyPressed (engine_input idle (pressing KeyEscape)) KeyEscape \<and>
   turns_Update (engine_input idle (pressing KeyEscape)) \<lparr>turns_turn = 0\<rparr> =
     Inr (\<lparr>turns_turn = 0\<rparr>, None)"
  by (simp add: turns_Update_def engine_input_def idle_def pressing_def)

section \<open>The polygon generation\<close>

lemma fold_update_upt:
  "n \<le> length vs \<Longrightarrow>
   fold (\<lambda>i vs. vs[i := f i]) [0..<n] vs = map f [0..<n] @ drop n vs"
proof (induction n)
  case 0
  then show ?case by simp
next
  case (Suc n)
  then have n: "n < length vs" by simp
  have "fold (\<lambda>i vs. vs[i := f i]) [0..<Suc n] vs =
        (map f [0..<n] @ drop n vs)[n := f n]"
    using Suc by simp
  also have "\<dots> = map f [0..<n] @ (drop n vs)[0 := f n]"
    by (simp add: list_update_append)
  also have "(drop n vs)[0 := f n] = f n # drop (Suc n) vs"
    using n by (simp add: Cons_nth_drop_Suc [symmetric])
  finally show ?case by simp
qed

lemma fold_append_upt:
  "fold (\<lambda>i acc. acc @ g i) [0..<n] acc = acc @ concat (map g [0..<n])"
  by (induction n) simp_all

lemma concat_triples:
  assumes "\<And>i. i < n \<Longrightarrow> length (g i) = 3"
  shows "length (concat (map g [0..<n])) = 3 * n \<and>
         (\<forall>i<n. \<forall>k<3. concat (map g [0..<n]) ! (3 * i + k) = g i ! k)"
  using assms
proof (induction n)
  case 0
  then show ?case by simp
next
  case (Suc n)
  then have IH: "length (concat (map g [0..<n])) = 3 * n"
    "\<And>i k. i < n \<Longrightarrow> k < 3 \<Longrightarrow> concat (map g [0..<n]) ! (3 * i + k) = g i ! k"
    by simp_all
  have len: "length (g n) = 3"
    using Suc.prems by simp
  have "concat (map g [0..<Suc n]) ! (3 * i + k) = g i ! k" if "i < Suc n" "k < 3" for i k
  proof (cases "i < n")
    case True
    then have "3 * i + k < 3 * n" using that by simp
    then show ?thesis
      using IH True that by (simp add: nth_append)
  next
    case False
    then have "i = n" using that by simp
    then show ?thesis
      using IH(1) by (simp add: nth_append)
  qed
  then show ?case
    using IH(1) len by simp
qed

lemma uint16_small: "0 \<le> v \<Longrightarrow> v < 65536 \<Longrightarrow> uint16 v = nat v"
  by (simp add: uint16_def)

text \<open>The closed form of \<open>genPolygon\<close> for a number of sides that fits a \<open>uint16\<close>.\<close>

lemma genPolygonOf_closed:
  assumes "1 \<le> num" "num < 65536"
  shows "genPolygonOf cr cg cb ca radius num =
     Inr (map (rimVertex cr cg cb ca radius num) [0..<nat num] @ [centreVertex cr cg cb ca radius],
          concat (map (\<lambda>i. [i, (i + 1) mod nat num, nat num]) [0..<nat num]))"
proof -
  let ?N = "nat num"
  let ?rim = "rimVertex cr cg cb ca radius num"
  let ?vs0 = "zeroVertex # replicate ?N zeroVertex"
  have a: "add64 num 1 = num + 1"
    using assms by (simp add: add64_def wrap64_id is_int64_def)
  have n1: "nat (num + 1) = Suc ?N"
    using assms by simp
  have "drop ?N (replicate ?N zeroVertex @ [zeroVertex]) = [zeroVertex]"
    by simp
  then have d: "drop ?N ?vs0 = [zeroVertex]"
    by (simp add: replicate_append_same)
  have "fold (\<lambda>i vs. vs[i := ?rim i]) [0..<?N] ?vs0 = map ?rim [0..<?N] @ drop ?N ?vs0"
    by (rule fold_update_upt) simp
  then have vs1: "fold (\<lambda>i vs. vs[i := ?rim i]) [0..<?N] ?vs0 = map ?rim [0..<?N] @ [zeroVertex]"
    using d by simp
  have vs2: "(map ?rim [0..<?N] @ [zeroVertex])[?N := centreVertex cr cg cb ca radius] =
             map ?rim [0..<?N] @ [centreVertex cr cg cb ca radius]"
    by (simp add: list_update_append)
  have u: "uint16 num = ?N" "?N \<noteq> 0"
    using assms by (simp_all add: uint16_small)
  have ind: "map (\<lambda>i. [uint16 (int i), uint16 (int i + 1) mod ?N, ?N]) [0..<?N] =
             map (\<lambda>i. [i, (i + 1) mod ?N, ?N]) [0..<?N]"
  proof (rule map_cong [OF refl])
    fix i assume "i \<in> set [0..<?N]"
    then have "int i < 65535" using assms by auto
    then have "uint16 (int i) = i" "uint16 (int i + 1) = i + 1"
      by (simp_all add: uint16_small nat_add_distrib)
    then show "[uint16 (int i), uint16 (int i + 1) mod ?N, ?N] = [i, (i + 1) mod ?N, ?N]"
      by simp
  qed
  show ?thesis
    using assms u
    by (simp add: genPolygonOf_def a n1 vs1 vs2 fold_append_upt ind Let_def)
qed

lemma genPolygonOf_fan:
  assumes "1 \<le> num" "num < 65536"
  shows "\<exists>out. genPolygonOf cr cg cb ca radius num = Inr out \<and> is_fan radius num out"
proof -
  let ?N = "nat num"
  let ?g = "\<lambda>i. [i, (i + 1) mod ?N, ?N]"
  have t: "length (concat (map ?g [0..<?N])) = 3 * ?N"
    "\<And>i k. i < ?N \<Longrightarrow> k < 3 \<Longrightarrow> concat (map ?g [0..<?N]) ! (3 * i + k) = ?g i ! k"
    using concat_triples [of ?N ?g] by simp_all
  have t0: "concat (map ?g [0..<?N]) ! (3 * i) = i" if "i < ?N" for i
    using t(2) [of i 0] that by simp
  have t1: "concat (map ?g [0..<?N]) ! (3 * i + 1) = (i + 1) mod ?N" if "i < ?N" for i
    using t(2) [of i 1] that by simp
  have t2: "concat (map ?g [0..<?N]) ! (3 * i + 2) = ?N" if "i < ?N" for i
    using t(2) [of i 2] that by simp
  have "is_fan radius num
     (map (rimVertex cr cg cb ca radius num) [0..<?N] @ [centreVertex cr cg cb ca radius],
      concat (map ?g [0..<?N]))"
    using t(1) t0 t1 t2
    by (simp add: is_fan_def nth_append rimVertex_def centreVertex_def Let_def)
  then show ?thesis
    using genPolygonOf_closed [OF assms] by simp
qed

lemma length_fold_update: "length (fold (\<lambda>i vs. vs[i := f i]) js vs) = length vs"
  by (induction js arbitrary: vs) simp_all

text \<open>
  A number of sides whose low 16 bits are zero: \<open>uint16(num)\<close> is the divisor of the
  index loop.
\<close>

lemma genPolygonOf_zero_divisor:
  assumes "0 < num" "num < 2 ^ 63 - 1" "uint16 num = 0"
  shows "genPolygonOf cr cg cb ca radius num = Inl DivideByZero"
proof -
  have a: "add64 num 1 = num + 1"
    using assms by (simp add: add64_def wrap64_id is_int64_def)
  have "length (fold (\<lambda>i vs. vs[i := rimVertex cr cg cb ca radius num i]) [0..<nat num]
          (replicate (nat (num + 1)) zeroVertex)) \<noteq> 0"
    using assms by (simp add: length_fold_update)
  then show ?thesis
    using assms by (simp add: genPolygonOf_def a Let_def del: length_0_conv)
qed

lemma pentagon_example:
  "genPolygon 20 5 =
     Inr (map (rimVertex 1 1 1 1 20 5) [0..<5] @ [centreVertex 1 1 1 1 20],
          [0, 1, 5, 1, 2, 5, 2, 3, 5, 3, 4, 5, 4, 0, 5])"
proof -
  have "concat (map (\<lambda>i. [i, (i + 1) mod 5, 5]) [0..<5]) =
        [0, 1, 5, 1, 2, 5, 2, 3, 5, 3, 4, 5, 4, 0, 5 :: nat]"
    by (simp add: upt_rec)
  then show ?thesis
    using genPolygonOf_closed [of 5 1 1 1 1 20] by (simp add: genPolygon_def)
qed

text \<open>
  Claim C6, as amended. For a number of sides from 3 up to 65535 (the indices are
  \<open>uint16\<close>), both versions of \<open>genPolygon\<close> return \<open>num + 1\<close> vertices, vertex \<open>i\<close> at
  the angle \<open>2 \<pi> i / num\<close> on the circle of the given radius around
  \<open>(radius, radius)\<close> and the last one at the centre, and \<open>3 * num\<close> fan indices, the
  \<open>i\<close>-th triangle being \<open>(i, (i + 1) mod num, num)\<close>. The coordinates are real numbers
  here; the rounding of \<open>float32\<close> and \<open>float64\<close> is left out.
\<close>

theorem genPolygon_is_fan:
  assumes "3 \<le> num" and "num \<le> 65535"
  shows "(\<exists>out. genPolygon radius num = Inr out \<and> is_fan radius num out) \<and>
         (\<exists>out. genPolygonRGBA radius num clr = Inr out \<and> is_fan radius num out)"
proof
  have n: "1 \<le> num" "num < 65536"
    using assms by simp_all
  show "\<exists>out. genPolygon radius num = Inr out \<and> is_fan radius num out"
    unfolding genPolygon_def by (rule genPolygonOf_fan [OF n])
  show "\<exists>out. genPolygonRGBA radius num clr = Inr out \<and> is_fan radius num out"
  proof (cases clr)
    case (fields R G B A)
    show ?thesis
      using genPolygonOf_fan [OF n, of "real R / 255" "real G / 255" "real B / 255"
          "real A / 255" radius]
      by (simp add: genPolygonRGBA_def fields)
  qed
qed

theorem genPolygon_is_fan_witness:
  "(3 :: int) \<le> 5 \<and> (5 :: int) \<le> 65535 \<and>
   (\<exists>out. genPolygon 20 5 = Inr out \<and> is_fan 20 5 out \<and>
      snd out = [0, 1, 5, 1, 2, 5, 2, 3, 5, 3, 4, 5, 4, 0, 5]) \<and>
   (\<exists>out. genPolygonRGBA 20 5 (255, 0, 0, 255) = Inr out \<and> is_fan 20 5 out)"
  using genPolygon_is_fan [of 5 20 "(255, 0, 0, 255)"] pentagon_example
  by auto

text \<open>
  With 65536 sides \<open>uint16(num)\<close> is 0, and the index loop panics with a division by
  zero: \<open>genPolygon\<close> returns nothing.
\<close>

theorem genPolygon_65536_panics:
  "(3 :: int) \<le> 65536 \<and> genPolygon 20 65536 = Inl DivideByZero"
  using genPolygonOf_zero_divisor [of 65536 1 1 1 1 20]
  by (simp add: genPolygon_def uint16_def)

section \<open>Hit tests and the drawn pixels\<close>

lemma opaque_pixels_iff: "(i, j) \<in> set (opaque_pixels im) \<longleftrightarrow> At_A im i j > 0"
  by (auto simp: opaque_pixels_def At_A_def)

text \<open>
  A sprite is hit exactly at the screen pixels that receive one of its opaque pixels
  (the subtractions of \<open>In\<close> within the range of a Go \<open>int\<close>).
\<close>

lemma Sprite_In_iff_drawn:
  assumes "is_int64 (Sprite_x s)" "is_int64 (Sprite_y s)"
    "is_int64 (X - Sprite_x s)" "is_int64 (Y - Sprite_y s)"
  shows "Sprite_In s (X, Y) \<longleftrightarrow> (X, Y) \<in> set (Sprite_Draw s 0 0)"
proof -
  have x: "add64 (Sprite_x s) 0 = Sprite_x s" "add64 (Sprite_y s) 0 = Sprite_y s"
    using assms(1,2) by (simp_all add: add64_def wrap64_id)
  have d: "sub64 X (Sprite_x s) = X - Sprite_x s" "sub64 Y (Sprite_y s) = Y - Sprite_y s"
    using assms(3,4) by (simp_all add: sub64_def wrap64_id)
  have "(X, Y) \<in> set (Sprite_Draw s 0 0) \<longleftrightarrow>
        (X - Sprite_x s, Y - Sprite_y s) \<in> set (opaque_pixels (Sprite_img s))"
  proof
    assume "(X, Y) \<in> set (Sprite_Draw s 0 0)"
    then obtain i j where "(i, j) \<in> set (opaque_pixels (Sprite_img s))"
      "X = Sprite_x s + i" "Y = Sprite_y s + j"
      by (auto simp: Sprite_Draw_def x)
    then show "(X - Sprite_x s, Y - Sprite_y s) \<in> set (opaque_pixels (Sprite_img s))"
      by simp
  next
    assume "(X - Sprite_x s, Y - Sprite_y s) \<in> set (opaque_pixels (Sprite_img s))"
    then have "(\<lambda>(i, j). (Sprite_x s + i, Sprite_y s + j)) (X - Sprite_x s, Y - Sprite_y s)
        \<in> (\<lambda>(i, j). (Sprite_x s + i, Sprite_y s + j)) ` set (opaque_pixels (Sprite_img s))"
      by (rule imageI)
    then show "(X, Y) \<in> set (Sprite_Draw s 0 0)"
      by (simp add: Sprite_Draw_def x)
  qed
  then show ?thesis
    by (simp add: Sprite_In_def d opaque_pixels_iff)
qed

text \<open>
  The geometry of \<open>Polygon.Draw\<close> and \<open>Shape.Draw\<close> without rotation, for a bitmap of
  even size: the pixel \<open>(i, j)\<close> goes to \<open>(x - w / 2 + i, y - h / 2 + j)\<close>.
\<close>

lemma centred_upright:
  assumes "even w" "even h"
  shows "(real_of_int X, real_of_int Y) \<in>
           (\<lambda>(i, j). centred_GeoM w h 0 px py (real_of_int i, real_of_int j)) ` set (opaque_pixels im)
         \<longleftrightarrow> At_A im (X - px + w div 2) (Y - py + h div 2) > 0"
proof -
  define k l where "k = w div 2" and "l = h div 2"
  have kl: "w = 2 * k" "h = 2 * l"
    using assms by (simp_all add: k_def l_def)
  have g: "centred_GeoM w h 0 px py (real_of_int i, real_of_int j) =
           (real_of_int (i - k + px), real_of_int (j - l + py))" for i j
    by (simp add: centred_GeoM_def Let_def kl)
  have "(real_of_int X, real_of_int Y) \<in>
           (\<lambda>(i, j). centred_GeoM w h 0 px py (real_of_int i, real_of_int j)) ` set (opaque_pixels im)
        \<longleftrightarrow> (X - px + k, Y - py + l) \<in> set (opaque_pixels im)"
  proof
    assume "(real_of_int X, real_of_int Y) \<in>
           (\<lambda>(i, j). centred_GeoM w h 0 px py (real_of_int i, real_of_int j)) ` set (opaque_pixels im)"
    then obtain i j where ij: "(i, j) \<in> set (opaque_pixels im)"
      "real_of_int X = real_of_int (i - k + px)" "real_of_int Y = real_of_int (j - l + py)"
      by (auto simp: g)
    from ij(2,3) have "X = i - k + px" "Y = j - l + py"
      by (simp_all only: of_int_eq_iff)
    with ij(1) show "(X - px + k, Y - py + l) \<in> set (opaque_pixels im)"
      by simp
  next
    assume "(X - px + k, Y - py + l) \<in> set (opaque_pixels im)"
    then have "(\<lambda>(i, j). centred_GeoM w h 0 px py (real_of_int i, real_of_int j))
          (X - px + k, Y - py + l)
        \<in> (\<lambda>(i, j). centred_GeoM w h 0 px py (real_of_int i, real_of_int j)) ` set (opaque_pixels im)"
      by (rule imageI)
    then show "(real_of_int X, real_of_int Y) \<in>
           (\<lambda>(i, j). centred_GeoM w h 0 px py (real_of_int i, real_of_int j)) ` set (opaque_pixels im)"
      by (simp add: g)
  qed
  then show ?thesis
    by (simp add: opaque_pixels_iff k_def l_def)
qed

text \<open>
  An upright polygon whose bitmap is \<open>2 * radius\<close> wide and high is hit exactly at the
  screen pixels that receive one of its opaque pixels: \<open>In\<close> adds the radius, half the
  size of the bitmap, as the centred drawing does.
\<close>

lemma Polygon_In_iff_drawn:
  assumes "Polygon_theta p = 0"
    "img_w (Polygon_img p) = 2 * Polygon_radius p" "img_h (Polygon_img p) = 2 * Polygon_radius p"
    "is_int64 (X - Polygon_x p)" "is_int64 (X - Polygon_x p + Polygon_radius p)"
    "is_int64 (Y - Polygon_y p)" "is_int64 (Y - Polygon_y p + Polygon_radius p)"
  shows "Polygon_In p (X, Y) \<longleftrightarrow> (real_of_int X, real_of_int Y) \<in> set (Polygon_Draw p)"
proof -
  have d: "add64 (sub64 X (Polygon_x p)) (Polygon_radius p) = X - Polygon_x p + Polygon_radius p"
    "add64 (sub64 Y (Polygon_y p)) (Polygon_radius p) = Y - Polygon_y p + Polygon_radius p"
    using assms(4-7) by (simp_all add: add64_def sub64_def wrap64_id)
  show ?thesis
    using centred_upright [of "img_w (Polygon_img p)" "img_h (Polygon_img p)" X Y
        "Polygon_x p" "Polygon_y p" "Polygon_img p"]
    by (simp add: Polygon_In_def Polygon_Draw_def d assms(1,2,3))
qed

text \<open>
  An upright shape is hit at \<open>(X, Y)\<close> exactly when the screen pixel
  \<open>(X + w / 2, Y + h / 2)\<close> receives one of its opaque pixels: \<open>In\<close> adds the whole
  size of the bitmap where the centred drawing takes half of it.
\<close>

lemma Shape_In_iff_drawn_shifted:
  assumes "Shape_theta s = 0" "even (img_w (Shape_img s))" "even (img_h (Shape_img s))"
    "is_int64 (X - Shape_x s)" "is_int64 (X - Shape_x s + img_w (Shape_img s))"
    "is_int64 (Y - Shape_y s)" "is_int64 (Y - Shape_y s + img_h (Shape_img s))"
  shows "Shape_In s (X, Y) \<longleftrightarrow>
     (real_of_int (X + img_w (Shape_img s) div 2), real_of_int (Y + img_h (Shape_img s) div 2))
       \<in> set (Shape_Draw s)"
proof -
  let ?w = "img_w (Shape_img s)" and ?h = "img_h (Shape_img s)"
  have d: "add64 (sub64 X (Shape_x s)) ?w = X - Shape_x s + ?w"
    "add64 (sub64 Y (Shape_y s)) ?h = Y - Shape_y s + ?h"
    using assms(4-7) by (simp_all add: add64_def sub64_def wrap64_id)
  have e: "X + ?w div 2 - Shape_x s + ?w div 2 = X - Shape_x s + ?w"
    "Y + ?h div 2 - Shape_y s + ?h div 2 = Y - Shape_y s + ?h"
    using assms(2,3) by (auto elim!: evenE)
  show ?thesis
    using centred_upright [OF assms(2,3), of "X + ?w div 2" "Y + ?h div 2"
        "Shape_x s" "Shape_y s" "Shape_img s"]
    by (simp add: Shape_In_def Shape_Draw_def d e assms(1) Let_def)
qed

lemma Shape_drawn_upright:
  assumes "Shape_theta s = 0" "even (img_w (Shape_img s))" "even (img_h (Shape_img s))"
  shows "(real_of_int X, real_of_int Y) \<in> set (Shape_Draw s) \<longleftrightarrow>
     At_A (Shape_img s) (X - Shape_x s + img_w (Shape_img s) div 2)
       (Y - Shape_y s + img_h (Shape_img s) div 2) > 0"
  using centred_upright [OF assms(2,3), of X Y "Shape_x s" "Shape_y s" "Shape_img s"]
  by (simp add: Shape_Draw_def assms(1))

text \<open>
  Claim C3, on the rectangle of the shapes demo. The rectangle is drawn on the screen
  pixels 185 to 214 in both directions. \<open>In\<close> is true at \<open>(175, 175)\<close>, outside the
  drawn rectangle, and false at its centre \<open>(200, 200)\<close>.
\<close>

theorem Shape_In_off_the_drawn_shape:
  "Shape_In rectangle_shape (175, 175) \<and>
   (real_of_int 175, real_of_int 175) \<notin> set (Shape_Draw rectangle_shape) \<and>
   \<not> Shape_In rectangle_shape (200, 200) \<and>
   (real_of_int 200, real_of_int 200) \<in> set (Shape_Draw rectangle_shape)"
proof -
  have r: "Shape_theta rectangle_shape = 0" "even (img_w (Shape_img rectangle_shape))"
    "even (img_h (Shape_img rectangle_shape))"
    by (simp_all add: rectangle_shape_def solid_def)
  have "Shape_In rectangle_shape (175, 175)" "\<not> Shape_In rectangle_shape (200, 200)"
    by (simp_all add: Shape_In_def rectangle_shape_def solid_def At_A_def Let_def
        add64_def sub64_def wrap64_def)
  moreover have "(real_of_int 175, real_of_int 175) \<notin> set (Shape_Draw rectangle_shape)"
    unfolding Shape_drawn_upright [OF r]
    by (simp add: rectangle_shape_def solid_def At_A_def)
  moreover have "(real_of_int 200, real_of_int 200) \<in> set (Shape_Draw rectangle_shape)"
    unfolding Shape_drawn_upright [OF r]
    by (simp add: rectangle_shape_def solid_def At_A_def)
  ultimately show ?thesis by blast
qed

section \<open>The entities over a run\<close>

lemma list_all2_chain:
  assumes "\<And>a b c. R a b \<Longrightarrow> R b c \<Longrightarrow> R a c"
    and "list_all2 R xs ys" and "list_all2 R ys zs"
  shows "list_all2 R xs zs"
  unfolding list_all2_conv_all_nth
proof (intro conjI allI impI)
  show "length xs = length zs"
    using assms(2,3) by (simp add: list_all2_conv_all_nth)
next
  fix i assume "i < length xs"
  then have "R (xs ! i) (ys ! i)" "R (ys ! i) (zs ! i)"
    using assms(2,3) by (simp_all add: list_all2_conv_all_nth)
  then show "R (xs ! i) (zs ! i)"
    by (rule assms(1))
qed

lemma Sprite_same_trans: "Sprite_same a b \<Longrightarrow> Sprite_same b c \<Longrightarrow> Sprite_same a c"
  by (simp add: Sprite_same_def)

lemma Polygon_same_trans: "Polygon_same a b \<Longrightarrow> Polygon_same b c \<Longrightarrow> Polygon_same a c"
  by (simp add: Polygon_same_def)

lemma Shape_same_trans: "Shape_same a b \<Longrightarrow> Shape_same b c \<Longrightarrow> Shape_same a c"
  by (simp add: Shape_same_def)

lemma Block_same_trans: "Block_same a b \<Longrightarrow> Block_same b c \<Longrightarrow> Block_same a c"
  by (simp add: Block_same_def)

lemma Star_same_trans: "Star_same a b \<Longrightarrow> Star_same b c \<Longrightarrow> Star_same a c"
  by (simp add: Star_same_def)

lemma basic_Update_same:
  assumes "basic_valid g \<and> list_all2 Sprite_same es (basic_s g)"
  shows "\<exists>g' e. basic_Update inp g = Inr (g', e) \<and>
     (basic_valid g' \<and> list_all2 Sprite_same es (basic_s g'))"
proof -
  from assms have v: "basic_valid g" and e: "list_all2 Sprite_same es (basic_s g)"
    by simp_all
  from basic_Update_spec [OF v, of inp] obtain g' a where
    u: "basic_Update inp g = Inr (g', escape inp)" and i: "basic_inv g a g'"
    by blast
  from i have v': "basic_valid g'"
    by (simp add: basic_inv_def)
  from i have "only_active Sprite_same (basic_activeSprite g) (basic_s g) (basic_s g')"
    by (simp add: basic_inv_def)
  then have s: "list_all2 Sprite_same (basic_s g) (basic_s g')"
    by (rule only_active_same)
  have "list_all2 Sprite_same es (basic_s g')"
    by (rule list_all2_chain [where R = Sprite_same, OF Sprite_same_trans e s])
  with u v' show ?thesis by blast
qed

lemma polygon_Update_same:
  assumes "polygon_valid g \<and> list_all2 Polygon_same es (polygon_p g)"
  shows "\<exists>g' e. polygon_Update inp g = Inr (g', e) \<and>
     (polygon_valid g' \<and> list_all2 Polygon_same es (polygon_p g'))"
proof -
  from assms have v: "polygon_valid g" and e: "list_all2 Polygon_same es (polygon_p g)"
    by simp_all
  from polygon_Update_spec [OF v, of inp] obtain g' a fs where
    u: "polygon_Update inp g = Inr (g', escape inp)" and i: "polygon_inv g a fs g'"
    by blast
  from i have v': "polygon_valid g'"
    by (simp add: polygon_inv_def)
  from i have "only_active Polygon_same (polygon_activePolygon g) (polygon_p g) (polygon_p g')"
    by (simp add: polygon_inv_def)
  then have s: "list_all2 Polygon_same (polygon_p g) (polygon_p g')"
    by (rule only_active_same)
  have "list_all2 Polygon_same es (polygon_p g')"
    by (rule list_all2_chain [where R = Polygon_same, OF Polygon_same_trans e s])
  with u v' show ?thesis by blast
qed

lemma shapes_Update_same:
  assumes "shapes_valid g \<and> list_all2 Shape_same es (shapes_s g)"
  shows "\<exists>g' e. shapes_Update inp g = Inr (g', e) \<and>
     (shapes_valid g' \<and> list_all2 Shape_same es (shapes_s g'))"
proof -
  from assms have v: "shapes_valid g" and e: "list_all2 Shape_same es (shapes_s g)"
    by simp_all
  from shapes_Update_spec [OF v, of inp] obtain g' a fs where
    u: "shapes_Update inp g = Inr (g', escape inp)" and i: "shapes_inv g a fs g'"
    by blast
  from i have v': "shapes_valid g'"
    by (simp add: shapes_inv_def)
  from i have "only_active Shape_same (shapes_activeShape g) (shapes_s g) (shapes_s g')"
    by (simp add: shapes_inv_def)
  then have s: "list_all2 Shape_same (shapes_s g) (shapes_s g')"
    by (rule only_active_same)
  have "list_all2 Shape_same es (shapes_s g')"
    by (rule list_all2_chain [where R = Shape_same, OF Shape_same_trans e s])
  with u v' show ?thesis by blast
qed

lemma lines_Update_same:
  assumes "lines_valid g \<and> list_all2 Block_same es (lines_blocks g)"
  shows "\<exists>g' e. lines_Update inp g = Inr (g', e) \<and>
     (lines_valid g' \<and> list_all2 Block_same es (lines_blocks g'))"
proof -
  from assms have v: "lines_valid g" and e: "list_all2 Block_same es (lines_blocks g)"
    by simp_all
  from lines_Update_spec [OF v, of inp] obtain g' a fs cs where
    u: "lines_Update inp g = Inr (g', escape inp)" and i: "lines_inv g a fs cs g'"
    by blast
  from i have v': "lines_valid g'"
    by (simp add: lines_inv_def)
  from i have "only_active Block_same (lines_selected g) (lines_blocks g) (lines_blocks g')"
    by (simp add: lines_inv_def)
  then have s: "list_all2 Block_same (lines_blocks g) (lines_blocks g')"
    by (rule only_active_same)
  have "list_all2 Block_same es (lines_blocks g')"
    by (rule list_all2_chain [where R = Block_same, OF Block_same_trans e s])
  with u v' show ?thesis by blast
qed

lemma starfield_Update_same:
  assumes "list_all2 Star_same ns (starfield_nearStars g) \<and>
     list_all2 Star_same fs (starfield_farStars g)"
  shows "\<exists>g' e. starfield_Update inp g = Inr (g', e) \<and>
     (list_all2 Star_same ns (starfield_nearStars g') \<and>
      list_all2 Star_same fs (starfield_farStars g'))"
proof -
  from assms have n: "list_all2 Star_same ns (starfield_nearStars g)"
    and f: "list_all2 Star_same fs (starfield_farStars g)"
    by simp_all
  from starfield_Update_spec [of inp g] obtain g' b where
    u: "starfield_Update inp g = Inr (g', escape inp)" and i: "starfield_inv g b g'"
    by blast
  from i have n': "list_all2 Star_same (starfield_nearStars g) (starfield_nearStars g')"
    and f': "list_all2 Star_same (starfield_farStars g) (starfield_farStars g')"
    by (simp_all add: starfield_inv_def)
  have "list_all2 Star_same ns (starfield_nearStars g')"
    by (rule list_all2_chain [where R = Star_same, OF Star_same_trans n n'])
  moreover have "list_all2 Star_same fs (starfield_farStars g')"
    by (rule list_all2_chain [where R = Star_same, OF Star_same_trans f f'])
  ultimately show ?thesis
    using u by blast
qed

lemma same_start:
  "list_all2 Sprite_same ss ss" "list_all2 Polygon_same ps ps" "list_all2 Shape_same hs hs"
  "list_all2 Block_same bs bs" "list_all2 Star_same ts ts"
  by (simp_all add: list_all2_same Sprite_same_def Polygon_same_def Shape_same_def
      Block_same_def Star_same_def)

text \<open>Over a run of a demo with an active index the entities stay in place.\<close>

lemma basic_run_same:
  assumes "basic_valid g"
  shows "\<exists>g' e. RunGame basic_Update prev fs g = Inr (g', e) \<and>
     length (basic_s g') = length (basic_s g) \<and> list_all2 Sprite_same (basic_s g) (basic_s g')"
proof -
  from assms have "basic_valid g \<and> list_all2 Sprite_same (basic_s g) (basic_s g)"
    by (simp add: same_start)
  from RunGame_invariant
    [of "\<lambda>g'. basic_valid g' \<and> list_all2 Sprite_same (basic_s g) (basic_s g')" basic_Update,
      OF basic_Update_same this, of prev fs]
  obtain g' e where r: "RunGame basic_Update prev fs g = Inr (g', e)"
    and l: "list_all2 Sprite_same (basic_s g) (basic_s g')"
    by blast
  from list_all2_lengthD [OF l] have "length (basic_s g') = length (basic_s g)"
    by simp
  with r l show ?thesis by blast
qed

lemma polygon_run_same:
  assumes "polygon_valid g"
  shows "\<exists>g' e. RunGame polygon_Update prev fs g = Inr (g', e) \<and>
     length (polygon_p g') = length (polygon_p g) \<and> list_all2 Polygon_same (polygon_p g) (polygon_p g')"
proof -
  from assms have "polygon_valid g \<and> list_all2 Polygon_same (polygon_p g) (polygon_p g)"
    by (simp add: same_start)
  from RunGame_invariant
    [of "\<lambda>g'. polygon_valid g' \<and> list_all2 Polygon_same (polygon_p g) (polygon_p g')" polygon_Update,
      OF polygon_Update_same this, of prev fs]
  obtain g' e where r: "RunGame polygon_Update prev fs g = Inr (g', e)"
    and l: "list_all2 Polygon_same (polygon_p g) (polygon_p g')"
    by blast
  from list_all2_lengthD [OF l] have "length (polygon_p g') = length (polygon_p g)"
    by simp
  with r l show ?thesis by blast
qed

lemma shapes_run_same:
  assumes "shapes_valid g"
  shows "\<exists>g' e. RunGame shapes_Update prev fs g = Inr (g', e) \<and>
     length (shapes_s g') = length (shapes_s g) \<and> list_all2 Shape_same (shapes_s g) (shapes_s g')"
proof -
  from assms have "shapes_valid g \<and> list_all2 Shape_same (shapes_s g) (shapes_s g)"
    by (simp add: same_start)
  from RunGame_invariant
    [of "\<lambda>g'. shapes_valid g' \<and> list_all2 Shape_same (shapes_s g) (shapes_s g')" shapes_Update,
      OF shapes_Update_same this, of prev fs]
  obtain g' e where r: "RunGame shapes_Update prev fs g = Inr (g', e)"
    and l: "list_all2 Shape_same (shapes_s g) (shapes_s g')"
    by blast
  from list_all2_lengthD [OF l] have "length (shapes_s g') = length (shapes_s g)"
    by simp
  with r l show ?thesis by blast
qed

lemma lines_run_same:
  assumes "lines_valid g"
  shows "\<exists>g' e. RunGame lines_Update prev fs g = Inr (g', e) \<and>
     length (lines_blocks g') = length (lines_blocks g) \<and> list_all2 Block_same (lines_blocks g) (lines_blocks g')"
proof -
  from assms have "lines_valid g \<and> list_all2 Block_same (lines_blocks g) (lines_blocks g)"
    by (simp add: same_start)
  from RunGame_invariant
    [of "\<lambda>g'. lines_valid g' \<and> list_all2 Block_same (lines_blocks g) (lines_blocks g')" lines_Update,
      OF lines_Update_same this, of prev fs]
  obtain g' e where r: "RunGame lines_Update prev fs g = Inr (g', e)"
    and l: "list_all2 Block_same (lines_blocks g) (lines_blocks g')"
    by blast
  from list_all2_lengthD [OF l] have "length (lines_blocks g') = length (lines_blocks g)"
    by simp
  with r l show ?thesis by blast
qed

lemma starfield_run_same:
  "\<exists>g' e. RunGame starfield_Update prev fs g = Inr (g', e) \<and>
     length (starfield_nearStars g') = length (starfield_nearStars g) \<and>
     length (starfield_farStars g') = length (starfield_farStars g) \<and>
     list_all2 Star_same (starfield_nearStars g) (starfield_nearStars g') \<and>
     list_all2 Star_same (starfield_farStars g) (starfield_farStars g')"
proof -
  have "list_all2 Star_same (starfield_nearStars g) (starfield_nearStars g) \<and>
     list_all2 Star_same (starfield_farStars g) (starfield_farStars g)"
    by (simp add: same_start)
  from RunGame_invariant
    [of "\<lambda>g'. list_all2 Star_same (starfield_nearStars g) (starfield_nearStars g') \<and>
           list_all2 Star_same (starfield_farStars g) (starfield_farStars g')"
      starfield_Update, OF starfield_Update_same this, of prev fs]
  obtain g' e where r: "RunGame starfield_Update prev fs g = Inr (g', e)"
    and n: "list_all2 Star_same (starfield_nearStars g) (starfield_nearStars g')"
    and f: "list_all2 Star_same (starfield_farStars g) (starfield_farStars g')"
    by blast
  from list_all2_lengthD [OF n] list_all2_lengthD [OF f]
  have "length (starfield_nearStars g') = length (starfield_nearStars g)"
    "length (starfield_farStars g') = length (starfield_farStars g)"
    by simp_all
  with r n f show ?thesis by blast
qed

text \<open>
  Claim C7. No \<open>Update\<close> adds, removes or replaces an entity: after every run of
  \<open>Update\<close> calls, and so after a single call, each entity slice has the length it
  had, and every entity is in its place with its fixed fields (id, size, bitmap). For
  the demos with an active index this is for start states whose index is within the
  list, as the one \<open>main\<close> builds; the turns demo has no entities.
\<close>

theorem entities_fixed:
  "(basic_valid bg \<longrightarrow>
      (\<exists>g' e. RunGame basic_Update prev fs bg = Inr (g', e) \<and>
         length (basic_s g') = length (basic_s bg) \<and>
         list_all2 Sprite_same (basic_s bg) (basic_s g'))) \<and>
   (polygon_valid pg \<longrightarrow>
      (\<exists>g' e. RunGame polygon_Update prev fs pg = Inr (g', e) \<and>
         length (polygon_p g') = length (polygon_p pg) \<and>
         list_all2 Polygon_same (polygon_p pg) (polygon_p g'))) \<and>
   (shapes_valid sg \<longrightarrow>
      (\<exists>g' e. RunGame shapes_Update prev fs sg = Inr (g', e) \<and>
         length (shapes_s g') = length (shapes_s sg) \<and>
         list_all2 Shape_same (shapes_s sg) (shapes_s g'))) \<and>
   (lines_valid lg \<longrightarrow>
      (\<exists>g' e. RunGame lines_Update prev fs lg = Inr (g', e) \<and>
         length (lines_blocks g') = length (lines_blocks lg) \<and>
         list_all2 Block_same (lines_blocks lg) (lines_blocks g'))) \<and>
   (\<exists>g' e. RunGame starfield_Update prev fs fg = Inr (g', e) \<and>
      length (starfield_nearStars g') = length (starfield_nearStars fg) \<and>
      length (starfield_farStars g') = length (starfield_farStars fg) \<and>
      list_all2 Star_same (starfield_nearStars fg) (starfield_nearStars g') \<and>
      list_all2 Star_same (starfield_farStars fg) (starfield_farStars g'))"
  using basic_run_same [of bg prev fs] polygon_run_same [of pg prev fs]
    shapes_run_same [of sg prev fs] lines_run_same [of lg prev fs]
    starfield_run_same [of prev fs fg]
  by (intro conjI impI)

theorem entities_fixed_witness:
  "basic_valid basic_start \<and> polygon_valid polygon_start \<and> shapes_valid shapes_start \<and>
   lines_valid lines_start \<and>
   (\<exists>g' e. RunGame basic_Update idle [pressing KeyDown, pressing KeyRight] basic_start =
        Inr (g', e) \<and>
      length (basic_s g') = length (basic_s basic_start) \<and>
      list_all2 Sprite_same (basic_s basic_start) (basic_s g')) \<and>
   (\<exists>g' e. RunGame polygon_Update idle [pressing KeyDown, pressing KeyRight] polygon_start =
        Inr (g', e) \<and>
      length (polygon_p g') = length (polygon_p polygon_start) \<and>
      list_all2 Polygon_same (polygon_p polygon_start) (polygon_p g')) \<and>
   (\<exists>g' e. RunGame shapes_Update idle [pressing KeyDown, pressing KeyRight] shapes_start =
        Inr (g', e) \<and>
      length (shapes_s g') = length (shapes_s shapes_start) \<and>
      list_all2 Shape_same (shapes_s shapes_start) (shapes_s g')) \<and>
   (\<exists>g' e. RunGame lines_Update idle [pressing KeyDown, pressing KeyRight] lines_start =
        Inr (g', e) \<and>
      length (lines_blocks g') = length (lines_blocks lines_start) \<and>
      list_all2 Block_same (lines_blocks lines_start) (lines_blocks g')) \<and>
   (\<exists>g' e. RunGame starfield_Update idle [pressing KeyDown, pressing KeyRight]
        starfield_start = Inr (g', e) \<and>
      length (starfield_nearStars g') = length (starfield_nearStars starfield_start) \<and>
      length (starfield_farStars g') = length (starfield_farStars starfield_start))"
proof -
  note w = entities_fixed
      [of basic_start idle "[pressing KeyDown, pressing KeyRight]" polygon_start shapes_start
          lines_start starfield_start]
  from w start_states_valid show ?thesis
    by (elim conjE) (intro conjI, simp_all, blast)
qed

end
